theory Spec2Isabelle
  imports Main "HOL-Library.AList"
begin

section \<open>JavaScript values\<close>

text \<open>
  The values \<^verbatim>\<open>createError\<close> and \<^verbatim>\<open>isHttpError\<close> inspect. A number is an integer or
  \<^verbatim>\<open>NaN\<close> (fractional and infinite numbers are not represented). An object is its
  prototype, the list of its own properties in the order \<^verbatim>\<open>for (key in o)\<close> enumerates
  them, and whether it is extensible. A property is keyed by a string and holds a value
  and whether an assignment may replace it: a read-only property stands for a data
  property that is not writable and for an accessor without a setter. Every property of
  an object made outside the library is enumerable. Accessors that run code, proxies and
  the identity of objects are not represented. Strings are ASCII.
\<close>

datatype jsnum = Fin int | NaN

text \<open>
  A variant constructor, as \<^verbatim>\<open>createClientErrorConstructor\<close> and
  \<^verbatim>\<open>createServerErrorConstructor\<close> close over it: the class name and the status code.
\<close>

datatype ctor = ClientError string nat | ServerError string nat

text \<open>
  Prototypes. \<^verbatim>\<open>inherits(C, HttpError)\<close> chains a variant's prototype to the one of the
  abstract base, which \<^verbatim>\<open>inherits(HttpError, Error)\<close> chains to \<^verbatim>\<open>Error.prototype\<close>.
  \<open>ObjProto p ps\<close> is an object made outside the library that serves as a prototype: its
  own prototype is \<open>p\<close> and its own properties are \<open>ps\<close>. \<open>NullProto\<close> is the prototype
  \<^verbatim>\<open>null\<close>.
\<close>

datatype proto = NullProto | ObjectProto | ErrorProto | HttpErrorProto | VariantProto ctor
  | ObjProto proto "(string \<times> bool \<times> jsval) list"
and jsval = Undefined | Null | Boolean bool | Number jsnum | String string
  | Object proto "(string \<times> bool \<times> jsval) list" bool | Function | Symbol | BigInt int

fun chain :: "proto \<Rightarrow> proto list" where
  "chain NullProto = []"
| "chain ObjectProto = [ObjectProto]"
| "chain ErrorProto = [ErrorProto, ObjectProto]"
| "chain HttpErrorProto = [HttpErrorProto, ErrorProto, ObjectProto]"
| "chain (VariantProto c) = [VariantProto c, HttpErrorProto, ErrorProto, ObjectProto]"
| "chain (ObjProto p ps) = ObjProto p ps # chain p"

text \<open>\<^verbatim>\<open>v instanceof C\<close>, for \<open>p\<close> the prototype of \<^verbatim>\<open>C\<close>.\<close>

fun instanceof :: "jsval \<Rightarrow> proto \<Rightarrow> bool" where
  "instanceof (Object q ps ext) p = (p \<in> set (chain q))"
| "instanceof _ p = False"

fun typeof :: "jsval \<Rightarrow> string" where
  "typeof Undefined = ''undefined''"
| "typeof Null = ''object''"
| "typeof (Boolean b) = ''boolean''"
| "typeof (Number n) = ''number''"
| "typeof (String s) = ''string''"
| "typeof (Object p ps ext) = ''object''"
| "typeof Function = ''function''"
| "typeof Symbol = ''symbol''"
| "typeof (BigInt i) = ''bigint''"

text \<open>Truthiness, as \<^verbatim>\<open>!v\<close> and \<^verbatim>\<open>a || b\<close> read it.\<close>

fun truthy :: "jsval \<Rightarrow> bool" where
  "truthy Undefined = False"
| "truthy Null = False"
| "truthy (Boolean b) = b"
| "truthy (Number (Fin i)) = (i \<noteq> 0)"
| "truthy (Number NaN) = False"
| "truthy (String s) = (s \<noteq> [])"
| "truthy (Object p ps ext) = True"
| "truthy Function = True"
| "truthy Symbol = True"
| "truthy (BigInt i) = (i \<noteq> 0)"

definition or_js :: "jsval \<Rightarrow> jsval \<Rightarrow> jsval" where
  "or_js a b = (if truthy a then a else b)"

text \<open>The comparisons \<^verbatim>\<open><\<close> and \<^verbatim>\<open>>=\<close> of numbers: both are false at \<^verbatim>\<open>NaN\<close>.\<close>

fun lt :: "jsnum \<Rightarrow> int \<Rightarrow> bool" where
  "lt (Fin i) k = (i < k)"
| "lt NaN k = False"

fun ge :: "jsnum \<Rightarrow> int \<Rightarrow> bool" where
  "ge (Fin i) k = (i \<ge> k)"
| "ge NaN k = False"

text \<open>
  \<^verbatim>\<open>a === b\<close>. Objects are equal when they are the same object, which this model cannot
  tell; the library compares with \<^verbatim>\<open>===\<close> only where one side is a number.
\<close>

fun is_object :: "jsval \<Rightarrow> bool" where
  "is_object (Object p ps ext) = True"
| "is_object _ = False"

definition strict_equals :: "jsval \<Rightarrow> jsval \<Rightarrow> bool" where
  "strict_equals a b =
     (if is_object a \<or> is_object b then False
      else if a = Number NaN then False
      else a = b)"

subsection \<open>Strings\<close>

definition digit :: "nat \<Rightarrow> char" where
  "digit d = char_of (48 + d)"

fun String_nat :: "nat \<Rightarrow> string" where
  "String_nat n = (if n < 10 then [digit n] else String_nat (n div 10) @ [digit (n mod 10)])"

declare String_nat.simps [simp del]

text \<open>
  \<^verbatim>\<open>String(n)\<close> of a number: the property key a number indexes with. The decimal digits
  are what JavaScript prints for an integer below \<^verbatim>\<open>1e21\<close> in magnitude; from there on it
  prints exponent notation, which this function does not.
\<close>

fun String_num :: "jsnum \<Rightarrow> string" where
  "String_num NaN = ''NaN''"
| "String_num (Fin i) = (if i < 0 then CHR ''-'' # String_nat (nat (- i)) else String_nat (nat i))"

definition is_digit :: "char \<Rightarrow> bool" where
  "is_digit c = ((48::nat) \<le> of_char c \<and> of_char c \<le> (57::nat))"

text \<open>
  \<^verbatim>\<open>Number(s)\<close> on the strings \<^verbatim>\<open>codeClass\<close> builds: an optional sign and decimal digits
  give the integer (the empty string and a bare sign of zeros give 0), anything else here
  gives \<^verbatim>\<open>NaN\<close>.
\<close>

definition digits_value :: "string \<Rightarrow> nat" where
  "digits_value s = foldl (\<lambda>a c. 10 * a + (of_char c - 48)) (0::nat) s"

definition Number_str :: "string \<Rightarrow> jsnum" where
  "Number_str s =
     (case s of
        [] \<Rightarrow> Fin 0
      | c # r \<Rightarrow>
          if (c = CHR ''-'' \<or> c = CHR ''+'') \<and> r \<noteq> [] \<and> list_all is_digit r
          then Fin ((if c = CHR ''-'' then - 1 else 1) * int (digits_value r))
          else if list_all is_digit s then Fin (int (digits_value s))
          else NaN)"

subsection \<open>Properties\<close>

datatype error = TypeError string

text \<open>
  The properties a prototype holds that the library sets or reads:
  \<^verbatim>\<open>C.prototype.status = code\<close>, \<^verbatim>\<open>C.prototype.statusCode = code\<close> and
  \<^verbatim>\<open>C.prototype.expose\<close> of a variant, the \<^verbatim>\<open>name\<close> and \<^verbatim>\<open>message\<close> of
  \<^verbatim>\<open>Error.prototype\<close>, and whatever an object made outside the library holds. The
  built-in ones are all writable.
\<close>

fun proto_props :: "proto \<Rightarrow> (string \<times> bool \<times> jsval) list" where
  "proto_props (VariantProto (ClientError className code)) =
     [(''status'', True, Number (Fin (int code))),
      (''statusCode'', True, Number (Fin (int code))),
      (''expose'', True, Boolean True)]"
| "proto_props (VariantProto (ServerError className code)) =
     [(''status'', True, Number (Fin (int code))),
      (''statusCode'', True, Number (Fin (int code))),
      (''expose'', True, Boolean False)]"
| "proto_props ErrorProto = [(''name'', True, String ''Error''), (''message'', True, String [])]"
| "proto_props (ObjProto p ps) = ps"
| "proto_props _ = []"

text \<open>The own property \<open>k\<close> of an object, and the first one along its prototype chain.\<close>

fun own :: "jsval \<Rightarrow> string \<Rightarrow> (bool \<times> jsval) option" where
  "own (Object p ps ext) k = map_of ps k"
| "own _ k = None"

fun inherited :: "jsval \<Rightarrow> string \<Rightarrow> (bool \<times> jsval) option" where
  "inherited (Object p ps ext) k = map_of (concat (map proto_props (chain p))) k"
| "inherited _ k = None"

text \<open>
  \<^verbatim>\<open>o[k]\<close>: the own property, else the first one along the prototype chain. (Where no
  data property is named \<^verbatim>\<open>__proto__\<close>, JavaScript reads the prototype itself at that key;
  the library reads a key of that name only where a properties bag holds such a
  property.)
\<close>

definition get :: "jsval \<Rightarrow> string \<Rightarrow> jsval" where
  "get obj k =
     (case own obj k of
        Some (w, v) \<Rightarrow> v
      | None \<Rightarrow> (case inherited obj k of Some (w, v) \<Rightarrow> v | None \<Rightarrow> Undefined))"

text \<open>
  The setter of \<^verbatim>\<open>Object.prototype.__proto__\<close>: an object or \<^verbatim>\<open>null\<close> becomes the prototype,
  any other value is ignored. A function as prototype brings no property the library
  reads. Giving an object that is not extensible another prototype throws. (So does a
  prototype whose own chain runs through the object itself, which values without
  identity cannot express.)
\<close>

fun as_proto :: "jsval \<Rightarrow> proto option" where
  "as_proto (Object q qs ext) = Some (ObjProto q qs)"
| "as_proto Null = Some NullProto"
| "as_proto Function = Some (ObjProto ObjectProto [])"
| "as_proto _ = None"

fun set_proto :: "jsval \<Rightarrow> jsval \<Rightarrow> error + jsval" where
  "set_proto (Object p ps ext) v =
     (case as_proto v of
        None \<Rightarrow> Inr (Object p ps ext)
      | Some q \<Rightarrow>
          if q = p then Inr (Object p ps ext)
          else if ext then Inr (Object q ps ext)
          else Inl (TypeError ''#<Object> is not extensible''))"
| "set_proto x v = Inr x"

text \<open>
  \<^verbatim>\<open>o[k] = v\<close> in strict mode, as the whole file is. A writable own property is updated
  in place. Otherwise the first property of that name along the prototype chain decides:
  where it is writable, or none is found, a new own property is added last, which the
  object must be extensible for; where the chain reaches \<^verbatim>\<open>Object.prototype\<close> without a
  property named \<^verbatim>\<open>__proto__\<close>, that key runs the setter above. Every other case throws a
  TypeError.
\<close>

definition add_own :: "jsval \<Rightarrow> string \<Rightarrow> jsval \<Rightarrow> error + jsval" where
  "add_own obj k v =
     (case obj of
        Object p ps ext \<Rightarrow>
          if ext then Inr (Object p (ps @ [(k, True, v)]) ext)
          else Inl (TypeError ''Cannot add property, object is not extensible'')
      | _ \<Rightarrow> Inl (TypeError ''Cannot create property''))"

fun put :: "jsval \<Rightarrow> string \<Rightarrow> jsval \<Rightarrow> error + jsval" where
  "put (Object p ps ext) k v =
     (case map_of ps k of
        Some (w, u) \<Rightarrow>
          if w then Inr (Object p (AList.update k (True, v) ps) ext)
          else Inl (TypeError ''Cannot assign to read only property'')
      | None \<Rightarrow>
          (case inherited (Object p ps ext) k of
             Some (w, u) \<Rightarrow>
               if w then add_own (Object p ps ext) k v
               else Inl (TypeError ''Cannot assign to read only property'')
           | None \<Rightarrow>
               if k = ''__proto__'' \<and> ObjectProto \<in> set (chain p)
               then set_proto (Object p ps ext) v
               else add_own (Object p ps ext) k v))"
| "put x k v = Inl (TypeError ''Cannot create property'')"

text \<open>
  The keys \<^verbatim>\<open>for (key in o)\<close> visits, each once: the own ones, then the enumerable ones
  along the prototype chain (those of \<^verbatim>\<open>Error.prototype\<close> are not enumerable). None for
  \<^verbatim>\<open>null\<close>.
\<close>

fun enumerable_keys :: "proto \<Rightarrow> string list" where
  "enumerable_keys ErrorProto = []"
| "enumerable_keys p = map fst (proto_props p)"

fun keys :: "jsval \<Rightarrow> string list" where
  "keys (Object p ps ext) =
     rev (remdups (rev (map fst ps @ concat (map enumerable_keys (chain p)))))"
| "keys _ = []"

text \<open>
  The conversion of a value to a string, as \<^verbatim>\<open>new Error(m)\<close> does it. A symbol has none.
  An object is converted by its \<^verbatim>\<open>toString\<close> method: the one of \<^verbatim>\<open>Object.prototype\<close> where
  the chain reaches it (methods an object brings itself are not run, and the result for
  an \<^verbatim>\<open>Error\<close> is not spelled out), none otherwise.
\<close>

fun to_string :: "jsval \<Rightarrow> error + string" where
  "to_string Undefined = Inr ''undefined''"
| "to_string Null = Inr ''null''"
| "to_string (Boolean b) = Inr (if b then ''true'' else ''false'')"
| "to_string (Number n) = Inr (String_num n)"
| "to_string (String s) = Inr s"
| "to_string (Object p ps ext) =
     (if ObjectProto \<in> set (chain p) then Inr ''[object Object]''
      else Inl (TypeError ''Cannot convert object to primitive value''))"
| "to_string Function = Inr ''function () { [native code] }''"
| "to_string Symbol = Inl (TypeError ''Cannot convert a Symbol value to a string'')"
| "to_string (BigInt i) = Inr (String_num (Fin i))"

section \<open>The Status Table\<close>

text \<open>
  Modelled from the spec: the Status Table of the \<^verbatim>\<open>statuses\<close> package, which is not part
  of the sources. It is a mapping from numeric status code to reason phrase
  (\<^verbatim>\<open>statuses.message\<close>), and the known codes (\<^verbatim>\<open>statuses.codes\<close>) are its keys. The table
  is a parameter of every definition that reads it. A number indexes the mapping by its
  string; the keys are the strings of the codes, so a negative number and \<^verbatim>\<open>NaN\<close> find
  nothing.
\<close>

type_synonym statuses = "(nat \<times> string) list"

definition codes :: "statuses \<Rightarrow> nat list" where
  "codes tbl = map fst tbl"

fun message :: "statuses \<Rightarrow> jsnum \<Rightarrow> string option" where
  "message tbl (Fin i) = (if i < 0 then None else map_of tbl (nat i))"
| "message tbl NaN = None"

definition message_val :: "statuses \<Rightarrow> jsnum \<Rightarrow> jsval" where
  "message_val tbl n = (case message tbl n of None \<Rightarrow> Undefined | Some s \<Rightarrow> String s)"

section \<open>Identifiers and code classes\<close>

definition is_space :: "char \<Rightarrow> bool" where
  "is_space c = (c = CHR '' '' \<or> ((9::nat) \<le> of_char c \<and> of_char c \<le> (13::nat)))"

definition is_lower :: "char \<Rightarrow> bool" where
  "is_lower c = ((97::nat) \<le> of_char c \<and> of_char c \<le> (122::nat))"

definition is_upper :: "char \<Rightarrow> bool" where
  "is_upper c = ((65::nat) \<le> of_char c \<and> of_char c \<le> (90::nat))"

definition toUpperCase :: "char \<Rightarrow> char" where
  "toUpperCase c = (if is_lower c then char_of (of_char c - (32::nat)) else c)"

text \<open>\<^verbatim>\<open>str.split(/\s/)\<close>: one token between any two whitespace characters.\<close>

fun split_ws :: "string \<Rightarrow> string list" where
  "split_ws [] = [[]]"
| "split_ws (c # cs) =
     (if is_space c then [] # split_ws cs
      else (case split_ws cs of [] \<Rightarrow> [[c]] | t # ts \<Rightarrow> (c # t) # ts))"

definition toIdentifier :: "string \<Rightarrow> string" where
  "toIdentifier str =
     filter (\<lambda>c. c = CHR '' '' \<or> c = CHR ''_'' \<or> is_digit c \<or> is_lower c \<or> is_upper c)
       (concat (map (\<lambda>token. map toUpperCase (take 1 token) @ drop 1 token) (split_ws str)))"

definition codeClass :: "jsnum \<Rightarrow> jsnum" where
  "codeClass status = Number_str (take 1 (String_num status) @ ''00'')"

definition toClassName :: "string \<Rightarrow> string" where
  "toClassName name =
     (if drop (length name - 5) name \<noteq> ''Error'' then name @ ''Error'' else name)"

section \<open>Constructors and the exports\<close>

text \<open>
  \<^verbatim>\<open>new Error(m)\<close>: the object has an own \<^verbatim>\<open>message\<close>, the string of \<open>m\<close>, unless \<open>m\<close> is
  \<^verbatim>\<open>undefined\<close>; it throws where \<open>m\<close> has no string. The stack trace is not modelled.
\<close>

definition new_Error :: "jsval \<Rightarrow> error + jsval" where
  "new_Error m =
     (if m = Undefined then Inr (Object ErrorProto [] True)
      else (case to_string m of
              Inl e \<Rightarrow> Inl e
            | Inr s \<Rightarrow> Inr (Object ErrorProto [(''message'', True, String s)] True)))"

fun setPrototypeOf :: "jsval \<Rightarrow> proto \<Rightarrow> jsval" where
  "setPrototypeOf (Object p ps ext) q = Object q ps ext"
| "setPrototypeOf x q = x"

text \<open>
  \<^verbatim>\<open>Object.defineProperty(o, k, {value: v, writable: true, configurable: true, ...})\<close> on
  an object the constructor has just made: the own property is replaced or added.
\<close>

fun defineProperty :: "jsval \<Rightarrow> string \<Rightarrow> jsval \<Rightarrow> jsval" where
  "defineProperty (Object p ps ext) k v = Object p (AList.update k (True, v) ps) ext"
| "defineProperty x k v = x"

fun ctor_code :: "ctor \<Rightarrow> nat" where
  "ctor_code (ClientError className code) = code"
| "ctor_code (ServerError className code) = code"

fun ctor_className :: "ctor \<Rightarrow> string" where
  "ctor_className (ClientError className code) = className"
| "ctor_className (ServerError className code) = className"

text \<open>
  \<^verbatim>\<open>new C(message)\<close> for the variant \<^verbatim>\<open>C\<close> that \<^verbatim>\<open>createClientErrorConstructor\<close> or
  \<^verbatim>\<open>createServerErrorConstructor\<close> returned: the two function bodies are the same. The
  class name is the one \<^verbatim>\<open>nameFunc\<close> gives the function; the base class both take as
  their first parameter is always the abstract \<^verbatim>\<open>HttpError\<close>, which the prototype chain
  has built in.
\<close>

definition construct_variant :: "statuses \<Rightarrow> ctor \<Rightarrow> jsval \<Rightarrow> error + jsval" where
  "construct_variant tbl c message_arg =
     (let msg = (if message_arg \<noteq> Null \<and> message_arg \<noteq> Undefined then message_arg
                 else message_val tbl (Fin (int (ctor_code c))))
      in (case new_Error msg of
            Inl e \<Rightarrow> Inl e
          | Inr e0 \<Rightarrow>
              let e1 = setPrototypeOf e0 (VariantProto c);
                  e2 = defineProperty e1 ''message'' msg;
                  e3 = defineProperty e2 ''name'' (String (ctor_className c))
              in Inr e3))"

definition createClientErrorConstructor :: "string \<Rightarrow> nat \<Rightarrow> ctor" where
  "createClientErrorConstructor name code = ClientError (toClassName name) code"

definition createServerErrorConstructor :: "string \<Rightarrow> nat \<Rightarrow> ctor" where
  "createServerErrorConstructor name code = ServerError (toClassName name) code"

text \<open>
  The constructors among the properties of \<^verbatim>\<open>module.exports\<close>: the abstract base
  \<^verbatim>\<open>HttpError\<close> and the variants. The properties \<^verbatim>\<open>statuses\<close> and \<^verbatim>\<open>isHttpError\<close> hold other
  functions and are left out: \<^verbatim>\<open>createError\<close> reads \<^verbatim>\<open>module.exports\<close> at the string of a number
  only, which is neither name (\<open>String_num_not_name\<close> below).
\<close>

datatype export = HttpErrorExport | VariantExport ctor

type_synonym exports = "string \<Rightarrow> export option"

text \<open>\<^verbatim>\<open>new F(msg)\<close>; the abstract base is \<^verbatim>\<open>createHttpErrorConstructor\<close>'s function.\<close>

fun construct :: "statuses \<Rightarrow> export \<Rightarrow> jsval \<Rightarrow> error + jsval" where
  "construct tbl HttpErrorExport m = Inl (TypeError ''cannot construct abstract class'')"
| "construct tbl (VariantExport c) m = construct_variant tbl c m"

fun prototype :: "export \<Rightarrow> proto" where
  "prototype HttpErrorExport = HttpErrorProto"
| "prototype (VariantExport c) = VariantProto c"

definition initial_exports :: exports where
  "initial_exports = [''HttpError'' \<mapsto> HttpErrorExport]"

text \<open>
  The body of \<^verbatim>\<open>forEachCode\<close>. \<^verbatim>\<open>toIdentifier(undefined)\<close> would raise a TypeError; the
  \<^verbatim>\<open>switch\<close> compares \<^verbatim>\<open>codeClass(code)\<close> with 400 and 500. The two assignments to
  \<^verbatim>\<open>module.exports\<close> are updates of the map (the identifiers derived from the phrases of
  the table are taken not to name a read-only property of a function).
\<close>

definition forEachCode :: "statuses \<Rightarrow> exports \<Rightarrow> nat \<Rightarrow> error + exports" where
  "forEachCode tbl ex code =
     (case message tbl (Fin (int code)) of
        None \<Rightarrow> Inl (TypeError ''Cannot read properties of undefined'')
      | Some phrase \<Rightarrow>
          let name = toIdentifier phrase;
              CodeError =
                (if codeClass (Fin (int code)) = Fin 400
                 then Some (createClientErrorConstructor name code)
                 else if codeClass (Fin (int code)) = Fin 500
                 then Some (createServerErrorConstructor name code)
                 else None)
          in (case CodeError of
                None \<Rightarrow> Inr ex
              | Some C \<Rightarrow>
                  Inr ((ex(String_num (Fin (int code)) \<mapsto> VariantExport C))
                         (name \<mapsto> VariantExport C))))"

fun populateConstructorExports :: "statuses \<Rightarrow> nat list \<Rightarrow> exports \<Rightarrow> error + exports" where
  "populateConstructorExports tbl [] ex = Inr ex"
| "populateConstructorExports tbl (code # rest) ex =
     (case forEachCode tbl ex code of
        Inl e \<Rightarrow> Inl e
      | Inr ex' \<Rightarrow> populateConstructorExports tbl rest ex')"

text \<open>The exports once the module is loaded.\<close>

definition module_exports :: "statuses \<Rightarrow> error + exports" where
  "module_exports tbl = populateConstructorExports tbl (codes tbl) initial_exports"

section \<open>createError\<close>

text \<open>The local variables of \<^verbatim>\<open>createError\<close>, and the calls of \<^verbatim>\<open>deprecate\<close> so far.\<close>

record locals =
  err :: jsval
  msg :: jsval
  status :: jsval
  props :: jsval
  deprecated :: "string list"

definition initial_locals :: locals where
  "initial_locals =
     \<lparr>err = Undefined, msg = Undefined, status = Number (Fin 500),
      props = Object ObjectProto [] True, deprecated = []\<rparr>"

text \<open>One round of the loop over \<^verbatim>\<open>arguments\<close>, at index \<open>i\<close>.\<close>

definition scan_arg :: "nat \<Rightarrow> jsval \<Rightarrow> locals \<Rightarrow> locals" where
  "scan_arg i arg l =
     (if instanceof arg ErrorProto
      then l\<lparr>err := arg,
             status := or_js (or_js (get arg ''status'') (get arg ''statusCode'')) (status l)\<rparr>
      else (case arg of
              String s \<Rightarrow> l\<lparr>msg := arg\<rparr>
            | Number n \<Rightarrow>
                l\<lparr>status := arg,
                  deprecated := deprecated l @
                    (if i \<noteq> 0
                     then [''non-first-argument status code; replace with createError(''
                            @ String_num n @ '', ...)'']
                     else [])\<rparr>
            | Object p ps ext \<Rightarrow> l\<lparr>props := arg\<rparr>
            | Null \<Rightarrow> l\<lparr>props := arg\<rparr>
            | _ \<Rightarrow> l))"

fun scan :: "nat \<Rightarrow> jsval list \<Rightarrow> locals \<Rightarrow> locals" where
  "scan i [] l = l"
| "scan i (arg # args) l = scan (Suc i) args (scan_arg i arg l)"

text \<open>The condition of the first \<^verbatim>\<open>if\<close> after the loop.\<close>

definition non_error_status :: "jsval \<Rightarrow> bool" where
  "non_error_status st = (case st of Number n \<Rightarrow> lt n 400 \<or> ge n 600 | _ \<Rightarrow> False)"

text \<open>The second \<^verbatim>\<open>if\<close>: the status the rest of the function works with.\<close>

definition resolve :: "statuses \<Rightarrow> jsval \<Rightarrow> jsnum" where
  "resolve tbl st =
     (case st of
        Number n \<Rightarrow>
          if \<not> truthy (message_val tbl n) \<and> (lt n 400 \<or> ge n 600) then Fin 500 else n
      | _ \<Rightarrow> Fin 500)"

text \<open>\<^verbatim>\<open>createError[status] || createError[codeClass(status)]\<close>: a function is truthy.\<close>

definition select_constructor :: "exports \<Rightarrow> jsnum \<Rightarrow> export option" where
  "select_constructor ex st =
     (case ex (String_num st) of
        Some f \<Rightarrow> Some f
      | None \<Rightarrow> ex (String_num (codeClass st)))"

definition create :: "statuses \<Rightarrow> export option \<Rightarrow> jsnum \<Rightarrow> locals \<Rightarrow> error + jsval" where
  "create tbl HttpError st l =
     (if \<not> truthy (err l)
      then (case HttpError of
              Some f \<Rightarrow> construct tbl f (msg l)
            | None \<Rightarrow> new_Error (or_js (msg l) (message_val tbl st)))
      else Inr (err l))"

text \<open>The condition and the body of \<^verbatim>\<open>add properties to generic error\<close>.\<close>

definition must_stamp :: "export option \<Rightarrow> jsnum \<Rightarrow> jsval \<Rightarrow> bool" where
  "must_stamp HttpError st e =
     (case HttpError of
        None \<Rightarrow> True
      | Some f \<Rightarrow>
          \<not> instanceof e (prototype f) \<or> \<not> strict_equals (get e ''status'') (Number st))"

definition and_then :: "error + jsval \<Rightarrow> (jsval \<Rightarrow> error + jsval) \<Rightarrow> error + jsval" where
  "and_then r f = (case r of Inl x \<Rightarrow> Inl x | Inr e \<Rightarrow> f e)"

definition stamp :: "jsnum \<Rightarrow> jsval \<Rightarrow> error + jsval" where
  "stamp st e =
     and_then (and_then (put e ''expose'' (Boolean (lt st 500)))
                 (\<lambda>e. put e ''statusCode'' (Number st)))
       (\<lambda>e. put e ''status'' (Number st))"

text \<open>The loop \<^verbatim>\<open>for (let key in props)\<close>, which the first failing assignment leaves.\<close>

definition copy_key :: "jsval \<Rightarrow> jsval \<Rightarrow> string \<Rightarrow> error + jsval" where
  "copy_key bag e key =
     (if key \<noteq> ''status'' \<and> key \<noteq> ''statusCode'' then put e key (get bag key) else Inr e)"

definition copy_props :: "jsval \<Rightarrow> jsval \<Rightarrow> error + jsval" where
  "copy_props bag e = foldl (\<lambda>r key. and_then r (\<lambda>e. copy_key bag e key)) (Inr e) (keys bag)"

text \<open>
  \<^verbatim>\<open>createError(...args)\<close> with the exports \<open>ex\<close>: the error it returns or the one it throws,
  and the messages it passed to \<^verbatim>\<open>deprecate\<close>, in order (both calls come before anything
  that can throw).
\<close>

definition createError :: "statuses \<Rightarrow> exports \<Rightarrow> jsval list \<Rightarrow> (error + jsval) \<times> string list" where
  "createError tbl ex args =
     (let l = scan 0 args initial_locals;
          dep = deprecated l @
            (if non_error_status (status l)
             then [''non-error status code; use only 4xx or 5xx status codes'']
             else []);
          st = resolve tbl (status l);
          HttpError = select_constructor ex st
      in (and_then
            (and_then (create tbl HttpError st l)
               (\<lambda>e. if must_stamp HttpError st e then stamp st e else Inr e))
            (copy_props (props l)),
          dep))"

text \<open>Loading the module, then calling \<^verbatim>\<open>createError\<close>.\<close>

definition createError_of :: "statuses \<Rightarrow> jsval list \<Rightarrow> (error + jsval) \<times> string list" where
  "createError_of tbl args =
     (case module_exports tbl of
        Inl e \<Rightarrow> (Inl e, [])
      | Inr ex \<Rightarrow> createError tbl ex args)"

text \<open>The exports of the loaded module (the load never fails, see \<open>module_exports_loads\<close>).\<close>

definition exports_of :: "statuses \<Rightarrow> exports" where
  "exports_of tbl = (case module_exports tbl of Inl e \<Rightarrow> initial_exports | Inr ex \<Rightarrow> ex)"

section \<open>isHttpError\<close>

definition isHttpError :: "jsval \<Rightarrow> bool" where
  "isHttpError val =
     (if \<not> truthy val \<or> typeof val \<noteq> ''object'' then False
      else if instanceof val HttpErrorProto then True
      else instanceof val ErrorProto \<and>
           typeof (get val ''expose'') = ''boolean'' \<and>
           typeof (get val ''statusCode'') = ''number'' \<and>
           strict_equals (get val ''status'') (get val ''statusCode''))"

section \<open>An excerpt of the Status Table\<close>

text \<open>Some entries of the table of the \<^verbatim>\<open>statuses\<close> package, for the examples below.\<close>

definition example_statuses :: statuses where
  "example_statuses =
     [(200, ''OK''), (400, ''Bad Request''), (404, ''Not Found''), (418, ''I'm a Teapot''),
      (500, ''Internal Server Error''), (503, ''Service Unavailable'')]"

text \<open>An error made elsewhere, with a status of its own.\<close>

definition example_adopted :: jsval where
  "example_adopted =
     Object ErrorProto
       [(''message'', True, String ''boom''), (''status'', True, Number (Fin 404)),
        (''expose'', True, Boolean False)]
       True"

text \<open>The same error after \<^verbatim>\<open>Object.freeze\<close>.\<close>

definition example_frozen :: jsval where
  "example_frozen =
     Object ErrorProto
       [(''message'', False, String ''boom''), (''status'', False, Number (Fin 404)),
        (''expose'', False, Boolean False)]
       False"

text \<open>
  An argument without the properties a bag would hand over: a properties bag (an object
  that is no \<^verbatim>\<open>Error\<close>) becomes the empty object, anything else stays. With such
  arguments \<^verbatim>\<open>createError\<close> returns the error as it is before the loop over the bag.
\<close>

definition empty_bag :: "jsval \<Rightarrow> jsval" where
  "empty_bag a =
     (case a of
        Object p ps ext \<Rightarrow> if instanceof a ErrorProto then a else Object ObjectProto [] True
      | _ \<Rightarrow> a)"

text \<open>What the loop of \<^verbatim>\<open>createError\<close> passes to \<^verbatim>\<open>deprecate\<close> for the argument \<open>a\<close> at index \<open>j\<close>.\<close>

definition non_first_signal :: "nat \<Rightarrow> jsval \<Rightarrow> string list" where
  "non_first_signal j a =
     (case a of
        Number n \<Rightarrow>
          if j \<noteq> 0
          then [''non-first-argument status code; replace with createError(''
                 @ String_num n @ '', ...)'']
          else []
      | _ \<Rightarrow> [])"

text \<open>
  An ordinary object: it is extensible, and neither it nor an object along its prototype
  chain holds a read-only property. Every assignment to it succeeds.
\<close>

definition all_writable :: "(string \<times> bool \<times> jsval) list \<Rightarrow> bool" where
  "all_writable ps = list_all (\<lambda>(k, w, v). w) ps"

fun ordinary :: "jsval \<Rightarrow> bool" where
  "ordinary (Object p ps ext) =
     (ext \<and> all_writable ps \<and> list_all (\<lambda>q. all_writable (proto_props q)) (chain p))"
| "ordinary _ = False"

section \<open>Invariants\<close>

text \<open>
  The variant \<^verbatim>\<open>populateConstructorExports\<close> builds for a code \<open>c\<close> in [400,600) with the
  reason phrase \<open>phrase\<close>.
\<close>

definition variant_of :: "nat \<Rightarrow> string \<Rightarrow> export" where
  "variant_of c phrase =
     VariantExport
       (if c < 500 then ClientError (toClassName (toIdentifier phrase)) c
        else ServerError (toClassName (toIdentifier phrase)) c)"

text \<open>
  A variant constructor agrees with its code class: \<^verbatim>\<open>populateConstructorExports\<close> builds a
  client error for class 400 and a server error for class 500.
\<close>

fun well_classed :: "export \<Rightarrow> bool" where
  "well_classed (VariantExport (ClientError className code)) = (codeClass (Fin (int code)) = Fin 400)"
| "well_classed (VariantExport (ServerError className code)) = (codeClass (Fin (int code)) = Fin 500)"
| "well_classed _ = False"

text \<open>Every export is such a variant constructor, but for the abstract base.\<close>

definition variants_only :: "exports \<Rightarrow> bool" where
  "variants_only ex =
     (\<forall>k f. ex k = Some f \<longrightarrow> well_classed f \<or> k = ''HttpError'')"

text \<open>
  What the loop of \<^verbatim>\<open>createError\<close> keeps: \<^verbatim>\<open>err\<close> is unset or an \<^verbatim>\<open>Error\<close>, \<^verbatim>\<open>msg\<close> is
  unset or a string.
\<close>

definition wf_locals :: "locals \<Rightarrow> bool" where
  "wf_locals l =
     ((err l = Undefined \<or> instanceof (err l) ErrorProto) \<and>
      (msg l = Undefined \<or> (\<exists>s. msg l = String s)))"

section \<open>Values and their types\<close>

lemma typeof_boolean: "typeof v = ''boolean'' \<longleftrightarrow> (\<exists>b. v = Boolean b)"
  by (cases v) auto

lemma typeof_number: "typeof v = ''number'' \<longleftrightarrow> (\<exists>n. v = Number n)"
  by (cases v) auto

lemma instanceof_object: "instanceof v p \<Longrightarrow> \<exists>q ps ext. v = Object q ps ext"
  by (cases v) auto

lemma instanceof_is_object: "instanceof v p \<Longrightarrow> is_object v"
  by (cases v) auto

lemma chain_variant: "VariantProto C \<in> set (chain q) \<Longrightarrow> HttpErrorProto \<in> set (chain q)"
  by (induction q) auto

lemma strict_equals_eq: "strict_equals a b \<Longrightarrow> a = b"
  by (simp add: strict_equals_def split: if_splits)

section \<open>Assignments\<close>

lemma get_own: "own obj k = Some (w, v) \<Longrightarrow> get obj k = v"
  by (simp add: get_def)

lemma and_then_Inr: "and_then r f = Inr e \<longleftrightarrow> (\<exists>e0. r = Inr e0 \<and> f e0 = Inr e)"
  by (cases r) (auto simp: and_then_def)

lemma and_then_simps [simp]: "and_then (Inl x) f = Inl x" "and_then (Inr e) f = f e"
  by (simp_all add: and_then_def)

lemma set_proto_own: "set_proto obj v = Inr obj' \<Longrightarrow> own obj' k = own obj k"
  by (cases obj) (auto split: option.splits if_splits)

lemma put_own_other:
  "put obj k v = Inr obj' \<Longrightarrow> k' \<noteq> k \<Longrightarrow> own obj' k' = own obj k'"
  by (cases obj)
    (auto simp: add_own_def update_conv' map_add_def dest: set_proto_own
      split: option.splits if_splits)

lemma put_own_same:
  "put obj k v = Inr obj' \<Longrightarrow> k \<noteq> ''__proto__'' \<Longrightarrow> own obj' k = Some (True, v)"
  by (cases obj)
    (auto simp: add_own_def update_conv' map_add_def split: option.splits if_splits)

lemma put_proto:
  "put obj k v = Inr obj' \<Longrightarrow> k \<noteq> ''__proto__'' \<Longrightarrow>
   instanceof obj' p = instanceof obj p \<and> inherited obj' k' = inherited obj k' \<and>
   is_object obj'"
  by (cases obj)
    (auto simp: add_own_def split: option.splits if_splits)

lemma put_get:
  "put obj k v = Inr obj' \<Longrightarrow> k \<noteq> ''__proto__'' \<Longrightarrow>
   get obj' k' = (if k' = k then v else get obj k')"
  using put_own_other [of obj k v obj' k'] put_own_same [of obj k v obj']
    put_proto [of obj k v obj' _ k']
  by (auto simp: get_def split: option.splits)

lemma ordinary_inherited: "ordinary obj \<Longrightarrow> inherited obj k = Some (w, u) \<Longrightarrow> w"
proof (cases obj)
  case (Object p ps ext)
  assume a: "ordinary obj" "inherited obj k = Some (w, u)"
  then have "(k, w, u) \<in> set (concat (map proto_props (chain p)))"
    using Object by (auto dest: map_of_SomeD)
  then obtain q where "q \<in> set (chain p)" "(k, w, u) \<in> set (proto_props q)" by auto
  then show ?thesis
    using a(1) Object by (auto simp: all_writable_def list_all_iff)
qed simp_all

lemma ordinary_own: "ordinary obj \<Longrightarrow> own obj k = Some (w, u) \<Longrightarrow> w"
  by (cases obj) (auto simp: all_writable_def list_all_iff dest: map_of_SomeD)

lemma all_writable_update: "all_writable ps \<Longrightarrow> all_writable (AList.update k (True, v) ps)"
  by (induction ps) (auto simp: all_writable_def)

lemma put_ordinary:
  assumes "ordinary obj" and "k \<noteq> ''__proto__''"
  shows "\<exists>obj'. put obj k v = Inr obj' \<and> ordinary obj'"
proof (cases obj)
  case (Object p ps ext)
  show ?thesis
  proof (cases "map_of ps k")
    case None
    then show ?thesis
      using assms Object ordinary_inherited [of obj k]
      by (auto simp: add_own_def all_writable_def split: option.splits)
  next
    case (Some a)
    then show ?thesis
      using assms Object ordinary_own [of obj k]
      by (cases a) (auto simp: all_writable_update)
  qed
qed (use assms in simp_all)

section \<open>Strings and the exports\<close>

lemma String_nat_nonempty: "String_nat n \<noteq> []"
  by (subst String_nat.simps) simp

lemma is_digit_digit: "d < 10 \<Longrightarrow> is_digit (digit d)"
  by (simp add: is_digit_def digit_def)

lemma String_nat_digits: "list_all is_digit (String_nat n)"
proof (induction n rule: String_nat.induct)
  case (1 n)
  show ?case
  proof (cases "n < 10")
    case True
    then show ?thesis by (subst String_nat.simps) (simp add: is_digit_digit)
  next
    case False
    with 1 show ?thesis by (subst String_nat.simps) (simp add: is_digit_digit)
  qed
qed

lemma of_char_digit: "d < 10 \<Longrightarrow> of_char (digit d) = 48 + d"
  by (simp add: digit_def)

lemma digit_not_sign: "d < 10 \<Longrightarrow> digit d \<noteq> CHR ''-'' \<and> digit d \<noteq> CHR ''+''"
proof -
  assume d: "d < 10"
  have "of_char (digit d) \<noteq> (45::nat)" "of_char (digit d) \<noteq> (43::nat)"
    using d by (simp_all add: of_char_digit)
  then show ?thesis by auto
qed

lemma String_nat_3: "100 \<le> n \<Longrightarrow> n < 1000 \<Longrightarrow>
  String_nat n = [digit (n div 100), digit (n div 10 mod 10), digit (n mod 10)]"
proof -
  assume a: "100 \<le> n" "n < 1000"
  have b: "\<not> n < 10" "\<not> n div 10 < 10" "n div 10 div 10 < 10" "n div 10 div 10 = n div 100"
    using a by (simp_all add: div_mult2_eq [symmetric] less_mult_imp_div_less le_div_geq)
  have 1: "String_nat n = String_nat (n div 10) @ [digit (n mod 10)]"
    using b by (subst String_nat.simps [of n]) simp
  have 2: "String_nat (n div 10) = String_nat (n div 10 div 10) @ [digit (n div 10 mod 10)]"
    using b by (subst String_nat.simps [of "n div 10"]) simp
  have 3: "String_nat (n div 10 div 10) = [digit (n div 100)]"
    using b by (subst String_nat.simps [of "n div 10 div 10"]) simp
  show ?thesis by (simp add: 1 2 3)
qed

lemma Number_str_digit00: "d < 10 \<Longrightarrow> Number_str (digit d # ''00'') = Fin (int (100 * d))"
  using digit_not_sign [of d] is_digit_digit [of d]
  by (simp add: Number_str_def digits_value_def of_char_digit is_digit_def)

lemma codeClass_3: "100 \<le> c \<Longrightarrow> c < 1000 \<Longrightarrow> codeClass (Fin c) = Fin (100 * (c div 100))"
proof -
  assume a: "100 \<le> c" "c < 1000"
  have "nat c div 100 < 10" using a by simp
  moreover have "int (nat c div 100) = c div 100" using a by (simp add: zdiv_int)
  ultimately show ?thesis
    using a String_nat_3 [of "nat c"] Number_str_digit00 [of "nat c div 100"]
    by (simp add: codeClass_def)
qed

lemma codeClass_4xx: "400 \<le> c \<Longrightarrow> c < 500 \<Longrightarrow> codeClass (Fin c) = Fin 400"
  using codeClass_3 [of c] by simp

lemma codeClass_5xx: "500 \<le> c \<Longrightarrow> c < 600 \<Longrightarrow> codeClass (Fin c) = Fin 500"
  using codeClass_3 [of c] by simp


lemma variants_only_initial: "variants_only initial_exports"
  by (simp add: variants_only_def initial_exports_def)

lemma variants_only_upd:
  "variants_only ex \<Longrightarrow> well_classed f \<Longrightarrow> variants_only (ex(k \<mapsto> f))"
  unfolding variants_only_def by (metis fun_upd_apply option.inject)

lemma variants_only_forEachCode:
  "variants_only ex \<Longrightarrow> forEachCode tbl ex code = Inr ex' \<Longrightarrow> variants_only ex'"
  by (auto simp: forEachCode_def Let_def createClientErrorConstructor_def
      createServerErrorConstructor_def split: option.splits if_splits
      intro!: variants_only_upd)

lemma variants_only_populate:
  "variants_only ex \<Longrightarrow> populateConstructorExports tbl cs ex = Inr ex' \<Longrightarrow> variants_only ex'"
proof (induction cs arbitrary: ex)
  case Nil
  then show ?case by simp
next
  case (Cons c cs)
  then show ?case
    by (auto split: sum.splits dest: variants_only_forEachCode)
qed

lemma hd_String_num:
  "String_num n \<noteq> [] \<and> (is_digit (hd (String_num n)) \<or> hd (String_num n) = CHR ''-'' \<or> hd (String_num n) = CHR ''N'')"
proof (cases n)
  case (Fin i)
  have "is_digit (hd (String_nat m))" for m
    using String_nat_digits [of m] String_nat_nonempty [of m]
    by (cases "String_nat m") simp_all
  then show ?thesis using Fin by (simp add: String_nat_nonempty)
next
  case NaN
  then show ?thesis by simp
qed

lemma String_num_not_name:
  "String_num n \<noteq> ''statuses'' \<and> String_num n \<noteq> ''HttpError'' \<and> String_num n \<noteq> ''isHttpError''"
proof -
  have "\<not> is_digit CHR ''s''" "\<not> is_digit CHR ''H''" "\<not> is_digit CHR ''i''"
    by (simp_all add: is_digit_def)
  then show ?thesis
    using hd_String_num [of n] by (cases "String_num n") auto
qed

lemma module_exports_numeric:
  assumes "module_exports tbl = Inr ex" and "ex (String_num n) = Some f"
  shows "well_classed f"
proof -
  have "variants_only ex"
    using assms(1) variants_only_populate [OF variants_only_initial]
    by (simp add: module_exports_def)
  then show ?thesis
    using assms(2) String_num_not_name [of n] by (auto simp: variants_only_def)
qed

lemma forEachCode_known:
  "code \<in> fst ` set tbl \<Longrightarrow> \<exists>ex'. forEachCode tbl ex code = Inr ex'"
proof -
  assume "code \<in> fst ` set tbl"
  then obtain phrase where "map_of tbl code = Some phrase"
    by (metis domD dom_map_of_conv_image_fst)
  then show ?thesis
    by (simp add: forEachCode_def Let_def)
qed

lemma populate_known:
  "set cs \<subseteq> fst ` set tbl \<Longrightarrow> \<exists>ex'. populateConstructorExports tbl cs ex = Inr ex'"
proof (induction cs arbitrary: ex)
  case Nil
  then show ?case by simp
next
  case (Cons c cs)
  then obtain ex1 where "forEachCode tbl ex c = Inr ex1"
    using forEachCode_known [of c tbl ex] by auto
  then show ?case using Cons by simp
qed

lemma module_exports_loads: "\<exists>ex. module_exports tbl = Inr ex"
  unfolding module_exports_def codes_def by (rule populate_known) simp


lemma well_classed_variant: "well_classed f \<Longrightarrow> \<exists>C. f = VariantExport C"
  by (cases f) auto

lemma select_constructor_well_classed:
  "module_exports tbl = Inr ex \<Longrightarrow> select_constructor ex st = Some f \<Longrightarrow> well_classed f"
  by (auto simp: select_constructor_def split: option.splits dest: module_exports_numeric)


lemma construct_variant_ok:
  assumes "msg0 = (if m \<noteq> Null \<and> m \<noteq> Undefined then m
                   else message_val tbl (Fin (int (ctor_code c))))"
    and "msg0 = Undefined \<or> (\<exists>s. to_string msg0 = Inr s)"
  shows "construct_variant tbl c m =
     Inr (Object (VariantProto c)
            [(''message'', True, msg0), (''name'', True, String (ctor_className c))] True)"
  using assms by (auto simp: construct_variant_def Let_def new_Error_def)

lemma message_val_cases: "message_val tbl n = Undefined \<or> (\<exists>s. message_val tbl n = String s)"
  by (simp add: message_val_def split: option.splits)

lemma construct_variant_string:
  assumes "m = Undefined \<or> m = Null \<or> (\<exists>s. m = String s)"
  shows "\<exists>msg0. construct_variant tbl c m =
     Inr (Object (VariantProto c)
            [(''message'', True, msg0), (''name'', True, String (ctor_className c))] True)"
proof -
  let ?msg = "if m \<noteq> Null \<and> m \<noteq> Undefined then m
                   else message_val tbl (Fin (int (ctor_code c)))"
  have "?msg = Undefined \<or> (\<exists>s. ?msg = String s)"
    using assms message_val_cases [of tbl "Fin (int (ctor_code c))"] by auto
  then have "?msg = Undefined \<or> (\<exists>s. to_string ?msg = Inr s)" by auto
  from construct_variant_ok [OF refl this] show ?thesis by blast
qed

lemma ordinary_variant:
  "ordinary (Object (VariantProto c) [(''message'', True, a), (''name'', True, b)] True)"
  by (cases c) (simp_all add: all_writable_def)

lemma wf_locals_initial: "wf_locals initial_locals"
  by (simp add: wf_locals_def initial_locals_def)

lemma wf_locals_scan_arg: "wf_locals l \<Longrightarrow> wf_locals (scan_arg i arg l)"
  by (cases arg) (auto simp: wf_locals_def scan_arg_def)

lemma wf_locals_scan: "wf_locals l \<Longrightarrow> wf_locals (scan i args l)"
  by (induction args arbitrary: i l) (auto simp: wf_locals_scan_arg)

text \<open>
  \<^verbatim>\<open>createError\<close> always has an error to go on with: the adopted one, or a new one, which
  is an ordinary object.
\<close>

lemma create_ok:
  assumes "module_exports tbl = Inr ex" and "wf_locals l"
  shows "\<exists>e0. create tbl (select_constructor ex st) st l = Inr e0 \<and> instanceof e0 ErrorProto \<and>
           (if err l = Undefined then ordinary e0 else e0 = err l)"
proof (cases "err l = Undefined")
  case False
  then show ?thesis
    using assms(2) by (auto simp: create_def wf_locals_def dest: instanceof_object)
next
  case True
  have m: "msg l = Undefined \<or> (\<exists>s. msg l = String s)"
    using assms(2) by (simp add: wf_locals_def)
  show ?thesis
  proof (cases "select_constructor ex st")
    case None
    have "or_js (msg l) (message_val tbl st) = Undefined \<or>
        (\<exists>s. or_js (msg l) (message_val tbl st) = String s)"
      using m message_val_cases [of tbl st] by (auto simp: or_js_def)
    then show ?thesis
      using None True by (auto simp: create_def new_Error_def all_writable_def)
  next
    case (Some f)
    then obtain C where f: "f = VariantExport C"
      using select_constructor_well_classed [OF assms(1)] well_classed_variant by blast
    obtain msg0 where "construct_variant tbl C (msg l) =
       Inr (Object (VariantProto C)
            [(''message'', True, msg0), (''name'', True, String (ctor_className C))] True)"
      using construct_variant_string [of "msg l" tbl C] m by auto
    then show ?thesis
      using Some True f ordinary_variant by (simp add: create_def)
  qed
qed

lemma module_exports_of: "module_exports tbl = Inr (exports_of tbl)"
  using module_exports_loads [of tbl] by (auto simp: exports_of_def)

lemma createError_of_eq: "createError_of tbl args = createError tbl (exports_of tbl) args"
  by (simp add: createError_of_def module_exports_of)

section \<open>Stamping and copying\<close>

lemma stamp_Inr:
  assumes "stamp st e = Inr e'"
  shows "own e' ''status'' = Some (True, Number st) \<and>
         own e' ''statusCode'' = Some (True, Number st) \<and>
         own e' ''expose'' = Some (True, Boolean (lt st 500)) \<and>
         instanceof e' p = instanceof e p \<and>
         get e' k =
           (if k = ''status'' \<or> k = ''statusCode'' then Number st
            else if k = ''expose'' then Boolean (lt st 500) else get e k)"
proof -
  obtain e1 e2 where s: "put e ''expose'' (Boolean (lt st 500)) = Inr e1"
    "put e1 ''statusCode'' (Number st) = Inr e2" "put e2 ''status'' (Number st) = Inr e'"
    using assms by (auto simp: stamp_def and_then_Inr)
  have "own e' ''status'' = Some (True, Number st)"
    using put_own_same [OF s(3)] by simp
  moreover have "own e' ''statusCode'' = Some (True, Number st)"
    using put_own_same [OF s(2)] put_own_other [OF s(3), of "''statusCode''"] by simp
  moreover have "own e' ''expose'' = Some (True, Boolean (lt st 500))"
    using put_own_same [OF s(1)] put_own_other [OF s(2), of "''expose''"]
      put_own_other [OF s(3), of "''expose''"] by simp
  moreover have "instanceof e' p = instanceof e p"
    using put_proto [OF s(1)] put_proto [OF s(2)] put_proto [OF s(3)] by simp
  moreover have "get e' k =
           (if k = ''status'' \<or> k = ''statusCode'' then Number st
            else if k = ''expose'' then Boolean (lt st 500) else get e k)"
    using put_get [OF s(1), of k] put_get [OF s(2), of k] put_get [OF s(3), of k] by auto
  ultimately show ?thesis by blast
qed

lemma stamp_ordinary: "ordinary e \<Longrightarrow> \<exists>e'. stamp st e = Inr e' \<and> ordinary e'"
proof -
  assume "ordinary e"
  then obtain e1 where 1: "put e ''expose'' (Boolean (lt st 500)) = Inr e1" "ordinary e1"
    using put_ordinary [of e "''expose''"] by auto
  then obtain e2 where 2: "put e1 ''statusCode'' (Number st) = Inr e2" "ordinary e2"
    using put_ordinary [of e1 "''statusCode''"] by auto
  then obtain e3 where 3: "put e2 ''status'' (Number st) = Inr e3" "ordinary e3"
    using put_ordinary [of e2 "''status''"] by auto
  show ?thesis using 1 2 3 by (simp add: stamp_def)
qed

lemma copy_fold_Inl: "foldl (\<lambda>r key. and_then r (\<lambda>e. copy_key bag e key)) (Inl x) ks = Inl x"
  by (induction ks) simp_all

lemma copy_fold_own_keep:
  "foldl (\<lambda>r key. and_then r (\<lambda>e. copy_key bag e key)) (Inr e) ks = Inr e' \<Longrightarrow>
   k' \<notin> set ks \<or> k' = ''status'' \<or> k' = ''statusCode'' \<Longrightarrow> own e' k' = own e k'"
proof (induction ks arbitrary: e)
  case Nil
  then show ?case by simp
next
  case (Cons k ks)
  then obtain e1 where e1: "copy_key bag e k = Inr e1"
    "foldl (\<lambda>r key. and_then r (\<lambda>e. copy_key bag e key)) (Inr e1) ks = Inr e'"
    by (cases "copy_key bag e k") (simp_all add: copy_fold_Inl)
  have "own e1 k' = own e k'"
    using e1(1) Cons.prems(2) by (auto simp: copy_key_def split: if_splits dest: put_own_other)
  then show ?case
    using Cons.IH [OF e1(2)] Cons.prems(2) by auto
qed

lemma copy_fold_own_set:
  "foldl (\<lambda>r key. and_then r (\<lambda>e. copy_key bag e key)) (Inr e) ks = Inr e' \<Longrightarrow>
   k \<in> set ks \<Longrightarrow> k \<noteq> ''status'' \<Longrightarrow> k \<noteq> ''statusCode'' \<Longrightarrow> k \<noteq> ''__proto__'' \<Longrightarrow>
   own e' k = Some (True, get bag k)"
proof (induction ks arbitrary: e)
  case Nil
  then show ?case by simp
next
  case (Cons a ks)
  then obtain e1 where e1: "copy_key bag e a = Inr e1"
    "foldl (\<lambda>r key. and_then r (\<lambda>e. copy_key bag e key)) (Inr e1) ks = Inr e'"
    by (cases "copy_key bag e a") (simp_all add: copy_fold_Inl)
  show ?case
  proof (cases "k \<in> set ks")
    case True
    then show ?thesis using Cons.IH [OF e1(2)] Cons.prems by simp
  next
    case False
    then have "a = k" using Cons.prems(2) by simp
    then have "own e1 k = Some (True, get bag k)"
      using e1(1) Cons.prems by (auto simp: copy_key_def dest: put_own_same)
    then show ?thesis
      using copy_fold_own_keep [OF e1(2), of k] False by simp
  qed
qed

lemma copy_fold_frame:
  "foldl (\<lambda>r key. and_then r (\<lambda>e. copy_key bag e key)) (Inr e) ks = Inr e' \<Longrightarrow>
   ''__proto__'' \<notin> set ks \<Longrightarrow>
   instanceof e' p = instanceof e p \<and>
   get e' k =
     (if k \<in> set ks \<and> k \<noteq> ''status'' \<and> k \<noteq> ''statusCode'' then get bag k else get e k)"
proof (induction ks arbitrary: e)
  case Nil
  then show ?case by simp
next
  case (Cons a ks)
  then obtain e1 where e1: "copy_key bag e a = Inr e1"
    "foldl (\<lambda>r key. and_then r (\<lambda>e. copy_key bag e key)) (Inr e1) ks = Inr e'"
    by (cases "copy_key bag e a") (simp_all add: copy_fold_Inl)
  have a: "a \<noteq> ''__proto__''" using Cons.prems(2) by auto
  have "instanceof e1 p = instanceof e p \<and>
        get e1 k = (if k = a \<and> a \<noteq> ''status'' \<and> a \<noteq> ''statusCode'' then get bag a else get e k)"
    using e1(1) a put_get [of e a "get bag a" e1 k] put_proto [of e a "get bag a" e1 p]
    by (auto simp: copy_key_def split: if_splits)
  then show ?case
    using Cons.IH [OF e1(2)] Cons.prems(2) by auto
qed


lemma copy_props_own_keep:
  "copy_props bag e = Inr e' \<Longrightarrow>
   k' \<notin> set (keys bag) \<or> k' = ''status'' \<or> k' = ''statusCode'' \<Longrightarrow> own e' k' = own e k'"
  unfolding copy_props_def by (rule copy_fold_own_keep)

lemma copy_props_own_set:
  "copy_props bag e = Inr e' \<Longrightarrow>
   k \<in> set (keys bag) \<Longrightarrow> k \<noteq> ''status'' \<Longrightarrow> k \<noteq> ''statusCode'' \<Longrightarrow> k \<noteq> ''__proto__'' \<Longrightarrow>
   own e' k = Some (True, get bag k)"
  unfolding copy_props_def by (rule copy_fold_own_set)

lemma copy_props_frame:
  "copy_props bag e = Inr e' \<Longrightarrow> ''__proto__'' \<notin> set (keys bag) \<Longrightarrow>
   instanceof e' p = instanceof e p \<and>
   get e' k =
     (if k \<in> set (keys bag) \<and> k \<noteq> ''status'' \<and> k \<noteq> ''statusCode''
      then get bag k else get e k)"
  unfolding copy_props_def by (rule copy_fold_frame)


lemma copy_props_no_keys: "keys bag = [] \<Longrightarrow> copy_props bag e = Inr e"
  by (simp add: copy_props_def)

section \<open>The shape of the result\<close>

lemma createError_shape:
  fixes tbl args
  defines "l \<equiv> scan 0 args initial_locals"
  defines "st \<equiv> resolve tbl (status l)"
  defines "H \<equiv> select_constructor (exports_of tbl) st"
  shows "\<exists>e0. create tbl H st l = Inr e0 \<and> instanceof e0 ErrorProto \<and>
           (if err l = Undefined then ordinary e0 else e0 = err l) \<and>
           createError_of tbl args =
             (and_then (if must_stamp H st e0 then stamp st e0 else Inr e0)
                (copy_props (props l)),
              deprecated l @
                (if non_error_status (status l)
                 then [''non-error status code; use only 4xx or 5xx status codes'']
                 else []))"
proof -
  have "wf_locals l"
    unfolding l_def by (rule wf_locals_scan [OF wf_locals_initial])
  then obtain e0 where e0: "create tbl H st l = Inr e0" "instanceof e0 ErrorProto"
    "if err l = Undefined then ordinary e0 else e0 = err l"
    unfolding H_def using create_ok [OF module_exports_of] by blast
  then show ?thesis
    unfolding createError_of_eq createError_def H_def st_def l_def by (simp add: Let_def)
qed

lemma not_must_stamp:
  assumes "\<not> must_stamp (select_constructor (exports_of tbl) st) st e0"
  shows "instanceof e0 HttpErrorProto \<and> get e0 ''status'' = Number st \<and> st \<noteq> NaN"
proof -
  obtain f where f: "select_constructor (exports_of tbl) st = Some f"
    "instanceof e0 (prototype f)" "strict_equals (get e0 ''status'') (Number st)"
    using assms by (auto simp: must_stamp_def split: option.splits)
  then obtain C where "f = VariantExport C"
    using select_constructor_well_classed [OF module_exports_of] well_classed_variant by blast
  then have "instanceof e0 HttpErrorProto"
    using f(2) by (cases e0) (auto dest: chain_variant)
  moreover have "get e0 ''status'' = Number st" "st \<noteq> NaN"
    using f(3) by (auto simp: strict_equals_def split: if_splits)
  ultimately show ?thesis by simp
qed

section \<open>Known status codes\<close>

text \<open>
  C1. For every status code \<open>c\<close> in [400,599) with a reason phrase in the Status Table (a
  known code: the known codes are the keys of the table), \<^verbatim>\<open>createError(c)\<close> returns an error
  whose \<^verbatim>\<open>status\<close> and \<^verbatim>\<open>statusCode\<close> are \<open>c\<close> and whose \<^verbatim>\<open>expose\<close> is \<open>c < 500\<close>.
\<close>

theorem createError_known_status:
  assumes "400 \<le> c" and "c < 599" and "message tbl (Fin c) = Some phrase"
  shows "\<exists>e d. createError_of tbl [Number (Fin c)] = (Inr e, d) \<and>
           get e ''status'' = Number (Fin c) \<and> get e ''statusCode'' = Number (Fin c) \<and>
           get e ''expose'' = Boolean (c < 500)"
proof -
  let ?l = "scan 0 [Number (Fin c)] initial_locals"
  let ?H = "select_constructor (exports_of tbl) (Fin c)"
  have l: "err ?l = Undefined" "msg ?l = Undefined" "props ?l = Object ObjectProto [] True"
    "status ?l = Number (Fin c)"
    by (simp_all add: scan_arg_def initial_locals_def)
  have st: "resolve tbl (status ?l) = Fin c"
    using assms unfolding l by (simp add: resolve_def)
  obtain e0 where a: "create tbl (select_constructor (exports_of tbl) (resolve tbl (status ?l)))
        (resolve tbl (status ?l)) ?l = Inr e0"
    and b: "if err ?l = Undefined then ordinary e0 else e0 = err ?l"
    and c: "createError_of tbl [Number (Fin c)] =
             (and_then (if must_stamp (select_constructor (exports_of tbl) (resolve tbl (status ?l)))
                            (resolve tbl (status ?l)) e0
                        then stamp (resolve tbl (status ?l)) e0 else Inr e0)
                (copy_props (props ?l)),
              deprecated ?l @
                (if non_error_status (status ?l)
                 then [''non-error status code; use only 4xx or 5xx status codes'']
                 else []))"
    using createError_shape [of tbl "[Number (Fin c)]"] by blast
  note e0 = a [unfolded st] b [unfolded l(1), simplified]
  obtain d where r: "createError_of tbl [Number (Fin c)] =
             (and_then (if must_stamp ?H (Fin c) e0 then stamp (Fin c) e0 else Inr e0)
                (copy_props (props ?l)), d)"
    using c [unfolded st] by blast
  have copy: "copy_props (props ?l) x = Inr x" for x
    unfolding l by (simp add: copy_props_no_keys)
  show ?thesis
  proof (cases "must_stamp ?H (Fin c) e0")
    case True
    obtain e' where e': "stamp (Fin c) e0 = Inr e'"
      using stamp_ordinary [OF e0(2)] by blast
    have "get e' ''status'' = Number (Fin c)" "get e' ''statusCode'' = Number (Fin c)"
      "get e' ''expose'' = Boolean (c < 500)"
      using stamp_Inr [OF e', of _ "''status''"] stamp_Inr [OF e', of _ "''statusCode''"]
        stamp_Inr [OF e', of _ "''expose''"] by simp_all
    then show ?thesis using r True e' copy by simp
  next
    case False
    then obtain f where f: "?H = Some f" "strict_equals (get e0 ''status'') (Number (Fin c))"
      by (auto simp: must_stamp_def split: option.splits)
    then have wc: "well_classed f"
      using select_constructor_well_classed [OF module_exports_of] by blast
    then obtain C where C: "f = VariantExport C"
      using well_classed_variant by blast
    obtain msg0 where "construct_variant tbl C Undefined =
       Inr (Object (VariantProto C)
            [(''message'', True, msg0), (''name'', True, String (ctor_className C))] True)"
      using construct_variant_string [of Undefined tbl C] by auto
    then have e0_eq: "e0 = Object (VariantProto C)
            [(''message'', True, msg0), (''name'', True, String (ctor_className C))] True"
      using e0(1) f(1) C l by (simp add: create_def)
    have code: "int (ctor_code C) = c"
      using f(2) unfolding e0_eq by (cases C) (auto simp: get_def dest: strict_equals_eq)
    have cls: "codeClass (Fin c) = Fin (if c < 500 then 400 else 500)"
      using assms codeClass_4xx [of c] codeClass_5xx [of c] by auto
    have "get e0 ''status'' = Number (Fin c)" "get e0 ''statusCode'' = Number (Fin c)"
      "get e0 ''expose'' = Boolean (c < 500)"
      using code wc cls C unfolding e0_eq
      by (cases C; auto simp: get_def split: if_splits)+
    then show ?thesis using r False copy by simp
  qed
qed

theorem createError_known_status_witness:
  "\<exists>e d. createError_of example_statuses [Number (Fin 404)] = (Inr e, d) \<and>
           get e ''status'' = Number (Fin 404) \<and> get e ''statusCode'' = Number (Fin 404) \<and>
           get e ''expose'' = Boolean True"
  using createError_known_status [of 404 example_statuses "''Not Found''"]
  by (simp add: example_statuses_def)

section \<open>isHttpError\<close>

text \<open>
  C5. \<^verbatim>\<open>isHttpError\<close> is false for \<^verbatim>\<open>null\<close>, \<^verbatim>\<open>undefined\<close> and every value that is not an
  object; true for every object whose prototype chain has the prototype of the abstract
  \<^verbatim>\<open>HttpError\<close>; and for any other object true exactly when the object is an \<^verbatim>\<open>Error\<close>,
  its \<^verbatim>\<open>expose\<close> is a boolean, its \<^verbatim>\<open>statusCode\<close> is a number and
  \<^verbatim>\<open>status === statusCode\<close>.
\<close>

theorem isHttpError_cases:
  "(val = Null \<or> val = Undefined \<or> typeof val \<noteq> ''object'' \<longrightarrow> \<not> isHttpError val) \<and>
   (typeof val = ''object'' \<and> val \<noteq> Null \<and> instanceof val HttpErrorProto \<longrightarrow> isHttpError val) \<and>
   (typeof val = ''object'' \<and> val \<noteq> Null \<and> \<not> instanceof val HttpErrorProto \<longrightarrow>
      isHttpError val =
        (instanceof val ErrorProto \<and>
         (\<exists>b. get val ''expose'' = Boolean b) \<and>
         (\<exists>n. get val ''statusCode'' = Number n) \<and>
         strict_equals (get val ''status'') (get val ''statusCode'')))"
proof (cases val)
  case (Object p ps ext)
  then show ?thesis
    unfolding isHttpError_def typeof_boolean typeof_number by simp
qed (simp_all add: isHttpError_def)

theorem isHttpError_cases_witness:
  "\<not> isHttpError Null \<and> \<not> isHttpError (String ''Not Found'') \<and>
   isHttpError (Object (VariantProto (ClientError ''NotFoundError'' 404)) [] True) \<and>
   isHttpError (Object ErrorProto
     [(''expose'', True, Boolean False), (''statusCode'', True, Number (Fin 500)),
      (''status'', True, Number (Fin 500))] True) \<and>
   \<not> isHttpError (Object ErrorProto
     [(''expose'', True, Boolean False), (''statusCode'', True, Number (Fin 500)),
      (''status'', True, Number (Fin 404))] True) \<and>
   \<not> isHttpError (Object ObjectProto [] True)"
  using isHttpError_cases [of Null] isHttpError_cases [of "String ''Not Found''"]
    isHttpError_cases [of "Object (VariantProto (ClientError ''NotFoundError'' 404)) [] True"]
    isHttpError_cases [of "Object ErrorProto
     [(''expose'', True, Boolean False), (''statusCode'', True, Number (Fin 500)),
      (''status'', True, Number (Fin 500))] True"]
    isHttpError_cases [of "Object ErrorProto
     [(''expose'', True, Boolean False), (''statusCode'', True, Number (Fin 500)),
      (''status'', True, Number (Fin 404))] True"]
    isHttpError_cases [of "Object ObjectProto [] True"]
  by (auto simp add: strict_equals_def get_def)

section \<open>Stamping the error\<close>

text \<open>
  C2, as amended. Let \<open>e0\<close> be the error \<^verbatim>\<open>createError\<close> adopted or made, \<open>st\<close> the resolved
  status and \<open>H\<close> the constructor it selected. If no variant matched (\<open>H\<close> is unset), or
  \<open>e0\<close> is not an instance of the matched variant, or \<^verbatim>\<open>e0.status !== st\<close>, then, whenever
  \<^verbatim>\<open>createError\<close> returns, it has set \<^verbatim>\<open>expose\<close> to \<open>st < 500\<close> and both \<^verbatim>\<open>status\<close> and
  \<^verbatim>\<open>statusCode\<close> to \<open>st\<close> on the error, over any value it had; the properties bag is copied
  onto that error \<open>e1\<close> afterwards, and the error returned still has \<^verbatim>\<open>status\<close> and
  \<^verbatim>\<open>statusCode\<close> equal to \<open>st\<close>, and \<^verbatim>\<open>expose\<close> equal to \<open>st < 500\<close> unless the bag has an
  \<^verbatim>\<open>expose\<close> of its own. The second disjunct alone suffices: an adopted error whose
  \<^verbatim>\<open>status\<close> equals \<open>st\<close> but which is no instance of the matched variant is overwritten
  (the example below has \<^verbatim>\<open>status\<close> 404 and \<^verbatim>\<open>expose\<close> false, and comes back with \<^verbatim>\<open>expose\<close>
  true).
\<close>

theorem createError_stamps:
  fixes tbl args
  defines "l \<equiv> scan 0 args initial_locals"
  defines "st \<equiv> resolve tbl (status l)"
  defines "H \<equiv> select_constructor (exports_of tbl) st"
  assumes "create tbl H st l = Inr e0"
    and "H = None \<or> (\<exists>f. H = Some f \<and> \<not> instanceof e0 (prototype f)) \<or>
         \<not> strict_equals (get e0 ''status'') (Number st)"
    and "createError_of tbl args = (Inr e, d)"
  shows "\<exists>e1. copy_props (props l) e1 = Inr e \<and>
           get e1 ''expose'' = Boolean (lt st 500) \<and>
           get e1 ''status'' = Number st \<and> get e1 ''statusCode'' = Number st \<and>
           get e ''status'' = Number st \<and> get e ''statusCode'' = Number st \<and>
           (''expose'' \<notin> set (keys (props l)) \<longrightarrow> get e ''expose'' = Boolean (lt st 500))"
proof -
  obtain e0' where e0: "create tbl H st l = Inr e0'"
    and r: "createError_of tbl args =
             (and_then (if must_stamp H st e0' then stamp st e0' else Inr e0')
                (copy_props (props l)),
              deprecated l @
                (if non_error_status (status l)
                 then [''non-error status code; use only 4xx or 5xx status codes'']
                 else []))"
    using createError_shape [of tbl args] unfolding l_def st_def H_def by blast
  have same: "e0' = e0" using e0 assms(4) by simp
  have "must_stamp H st e0"
    using assms(5) by (auto simp: must_stamp_def split: option.splits)
  then have "and_then (stamp st e0) (copy_props (props l)) = Inr e"
    using r same assms(6) by simp
  then obtain e1 where e1: "stamp st e0 = Inr e1" "copy_props (props l) e1 = Inr e"
    by (auto simp: and_then_Inr)
  have own1: "own e1 ''status'' = Some (True, Number st)"
    "own e1 ''statusCode'' = Some (True, Number st)"
    "own e1 ''expose'' = Some (True, Boolean (lt st 500))"
    using stamp_Inr [OF e1(1)] by simp_all
  have "own e ''status'' = Some (True, Number st)"
    "own e ''statusCode'' = Some (True, Number st)"
    using copy_props_own_keep [OF e1(2), of "''status''"]
      copy_props_own_keep [OF e1(2), of "''statusCode''"] own1 by simp_all
  moreover have "own e ''expose'' = Some (True, Boolean (lt st 500))"
    if "''expose'' \<notin> set (keys (props l))"
    using copy_props_own_keep [OF e1(2), of "''expose''"] own1 that by simp
  ultimately show ?thesis
    using e1(2) own1 by (auto simp: get_own)
qed

theorem createError_stamps_witness:
  "create example_statuses
     (select_constructor (exports_of example_statuses) (Fin 404)) (Fin 404)
     (scan 0 [example_adopted] initial_locals) = Inr example_adopted \<and>
   select_constructor (exports_of example_statuses) (Fin 404) =
     Some (VariantExport (ClientError ''NotFoundError'' 404)) \<and>
   strict_equals (get example_adopted ''status'') (Number (Fin 404)) \<and>
   get example_adopted ''expose'' = Boolean False \<and>
   (\<exists>e e1. createError_of example_statuses [example_adopted] = (Inr e, []) \<and>
       copy_props (Object ObjectProto [] True) e1 = Inr e \<and>
       get e1 ''expose'' = Boolean True \<and>
       get e1 ''status'' = Number (Fin 404) \<and> get e1 ''statusCode'' = Number (Fin 404) \<and>
       get e ''expose'' = Boolean True)"
proof -
  let ?l = "scan 0 [example_adopted] initial_locals"
  let ?e = "Object ErrorProto
        [(''message'', True, String ''boom''), (''status'', True, Number (Fin 404)),
         (''expose'', True, Boolean True), (''statusCode'', True, Number (Fin 404))] True"
  have st: "resolve example_statuses (status ?l) = Fin 404"
    by code_simp
  have bag: "props ?l = Object ObjectProto [] True" "keys (Object ObjectProto [] True) = []"
    by code_simp+
  have H: "select_constructor (exports_of example_statuses) (Fin 404) =
     Some (VariantExport (ClientError ''NotFoundError'' 404))"
    by code_simp
  have h1: "create example_statuses
     (select_constructor (exports_of example_statuses) (resolve example_statuses (status ?l)))
     (resolve example_statuses (status ?l)) ?l = Inr example_adopted"
    by code_simp
  have h2: "\<not> instanceof example_adopted (prototype (VariantExport (ClientError ''NotFoundError'' 404)))"
    by code_simp
  have h3: "strict_equals (get example_adopted ''status'') (Number (Fin 404))"
    "get example_adopted ''expose'' = Boolean False"
    by code_simp+
  have h4: "createError_of example_statuses [example_adopted] = (Inr ?e, [])"
    by code_simp
  show ?thesis
    using createError_stamps [of example_statuses "[example_adopted]" example_adopted ?e "[]"]
      h1 h2 h3 h4 H
    unfolding st bag by auto
qed

text \<open>
  C2 as stated fails at \<^verbatim>\<open>createError(Object.freeze(err))\<close> for an \<^verbatim>\<open>Error\<close> \<^verbatim>\<open>err\<close> with
  \<^verbatim>\<open>err.status = 404\<close>: the error is no instance of the matched variant, but the first
  assignment of the stamp throws a TypeError and nothing is returned.
\<close>

theorem createError_stamps_frozen:
  "select_constructor (exports_of example_statuses) (Fin 404) =
     Some (VariantExport (ClientError ''NotFoundError'' 404)) \<and>
   create example_statuses (Some (VariantExport (ClientError ''NotFoundError'' 404))) (Fin 404)
     (scan 0 [example_frozen] initial_locals) = Inr example_frozen \<and>
   \<not> instanceof example_frozen (VariantProto (ClientError ''NotFoundError'' 404)) \<and>
   createError_of example_statuses [example_frozen] =
     (Inl (TypeError ''Cannot assign to read only property''), [])"
  by code_simp

section \<open>The fallback to 500\<close>

text \<open>
  C3 fails at \<^verbatim>\<open>createError(NaN)\<close>: \<^verbatim>\<open>NaN\<close> is a number without a reason phrase and is not
  in [400,600), yet the error returned has \<^verbatim>\<open>status\<close> \<^verbatim>\<open>NaN\<close>, not 500, because both
  comparisons of the guard are false at \<^verbatim>\<open>NaN\<close>.
  \<^verbatim>\<open>createError(999)\<close> returns an error with status 500.
\<close>

theorem createError_NaN_status:
  "typeof (Number NaN) = ''number'' \<and> message example_statuses NaN = None \<and>
   \<not> (ge NaN 400 \<and> lt NaN 600) \<and>
   createError_of example_statuses [Number NaN] =
     (Inr (Object ErrorProto
            [(''expose'', True, Boolean False), (''statusCode'', True, Number NaN),
             (''status'', True, Number NaN)] True), []) \<and>
   createError_of example_statuses [Number (Fin 999)] =
     (Inr (Object (VariantProto (ServerError ''InternalServerError'' 500))
            [(''message'', True, String ''Internal Server Error''),
             (''name'', True, String ''InternalServerError'')] True),
      [''non-error status code; use only 4xx or 5xx status codes''])"
  by code_simp

text \<open>\<^verbatim>\<open>isHttpError\<close> rejects the error \<^verbatim>\<open>createError(NaN)\<close> returns: \<^verbatim>\<open>NaN === NaN\<close> is false.\<close>

lemma createError_NaN_not_http_error:
  "\<not> isHttpError (Object ErrorProto
            [(''expose'', True, Boolean False), (''statusCode'', True, Number NaN),
             (''status'', True, Number NaN)] True)"
  by code_simp

section \<open>The deprecation signals\<close>

lemma deprecated_scan:
  "m \<in> set (deprecated (scan i args l)) \<Longrightarrow>
   m \<in> set (deprecated l) \<or>
   (\<exists>n. m = ''non-first-argument status code; replace with createError('' @ String_num n @ '', ...)'')"
proof (induction args arbitrary: i l)
  case Nil
  then show ?case by simp
next
  case (Cons a args)
  from Cons.IH [of "Suc i" "scan_arg i a l"] Cons.prems
  show ?case
    by (cases a) (auto simp: scan_arg_def split: if_splits)
qed

text \<open>
  C4, as amended. \<^verbatim>\<open>createError\<close> passes the message \<^verbatim>\<open>non-error status code\<close> to
  \<^verbatim>\<open>deprecate\<close> exactly when \<^verbatim>\<open>status\<close> after the loop over the arguments is a number \<open>n\<close>
  with \<^verbatim>\<open>n < 400 || n >= 600\<close>, whether the Status Table knows \<open>n\<close> or not. The signals are
  a separate component of the result: the error returned does not depend on them.
\<close>

theorem non_error_signal:
  "(''non-error status code; use only 4xx or 5xx status codes''
      \<in> set (snd (createError_of tbl args))) =
   (\<exists>n. status (scan 0 args initial_locals) = Number n \<and> (lt n 400 \<or> ge n 600))"
proof -
  let ?l = "scan 0 args initial_locals"
  let ?m = "''non-error status code; use only 4xx or 5xx status codes''"
  have r: "snd (createError_of tbl args) =
      deprecated ?l @ (if non_error_status (status ?l) then [?m] else [])"
    using createError_shape [of tbl args] by auto
  have "?m \<notin> set (deprecated ?l)"
    using deprecated_scan [of ?m 0 args initial_locals]
    by (auto simp: initial_locals_def)
  moreover have "non_error_status (status ?l) =
      (\<exists>n. status ?l = Number n \<and> (lt n 400 \<or> ge n 600))"
    by (cases "status ?l") (simp_all add: non_error_status_def)
  ultimately show ?thesis unfolding r by auto
qed

text \<open>
  C4 as stated fails twice: \<^verbatim>\<open>createError(200)\<close> signals although 200 is a known status
  code, and \<^verbatim>\<open>createError(599)\<close> does not signal although 599 is unknown and outside
  [400,599).
\<close>

theorem non_error_signal_known_code:
  "message example_statuses (Fin 200) = Some ''OK'' \<and>
   createError_of example_statuses [Number (Fin 200)] =
     (Inr (Object ErrorProto
            [(''message'', True, String ''OK''), (''expose'', True, Boolean True),
             (''statusCode'', True, Number (Fin 200)), (''status'', True, Number (Fin 200))]
            True),
      [''non-error status code; use only 4xx or 5xx status codes'']) \<and>
   message example_statuses (Fin 599) = None \<and>
   createError_of example_statuses [Number (Fin 599)] =
     (Inr (Object (VariantProto (ServerError ''InternalServerError'' 500))
            [(''message'', True, String ''Internal Server Error''),
             (''name'', True, String ''InternalServerError''),
             (''expose'', True, Boolean False), (''statusCode'', True, Number (Fin 599)),
             (''status'', True, Number (Fin 599))]
            True),
      [])"
  by code_simp

section \<open>Throwing\<close>






section \<open>The result is an HTTP error\<close>

text \<open>
  C10, as amended. Whenever \<^verbatim>\<open>createError\<close> returns, the resolved status is not \<^verbatim>\<open>NaN\<close> and
  the properties bag has no key \<^verbatim>\<open>__proto__\<close>, the value returned satisfies \<^verbatim>\<open>isHttpError\<close>
  exactly when it is an instance of the abstract \<^verbatim>\<open>HttpError\<close>, or the bag has no \<^verbatim>\<open>expose\<close>
  that is not a boolean. In the second case the value is an \<^verbatim>\<open>Error\<close> with a boolean
  \<^verbatim>\<open>expose\<close>, a numeric \<^verbatim>\<open>statusCode\<close> and \<^verbatim>\<open>status === statusCode\<close>.
\<close>

theorem createError_isHttpError:
  assumes "createError_of tbl args = (Inr e, d)"
    and "resolve tbl (status (scan 0 args initial_locals)) \<noteq> NaN"
    and "''__proto__'' \<notin> set (keys (props (scan 0 args initial_locals)))"
  shows "isHttpError e =
       (instanceof e HttpErrorProto \<or>
        (''expose'' \<in> set (keys (props (scan 0 args initial_locals))) \<longrightarrow>
            typeof (get (props (scan 0 args initial_locals)) ''expose'') = ''boolean''))"
proof -
  let ?l = "scan 0 args initial_locals"
  let ?st = "resolve tbl (status ?l)"
  let ?H = "select_constructor (exports_of tbl) ?st"
  obtain e0 where e0: "instanceof e0 ErrorProto"
    and r: "fst (createError_of tbl args) =
             and_then (if must_stamp ?H ?st e0 then stamp ?st e0 else Inr e0)
                (copy_props (props ?l))"
    using createError_shape [of tbl args] by auto
  have "and_then (if must_stamp ?H ?st e0 then stamp ?st e0 else Inr e0)
                (copy_props (props ?l)) = Inr e"
    using r assms(1) by simp
  then obtain e1 where e1: "(if must_stamp ?H ?st e0 then stamp ?st e0 else Inr e0) = Inr e1"
    "copy_props (props ?l) e1 = Inr e"
    unfolding and_then_Inr by blast
  note frame = copy_props_frame [OF e1(2) assms(3)]
  have inst1: "instanceof e1 p = instanceof e0 p" for p
    using e1(1) stamp_Inr [of ?st e0 e1 p] by (auto split: if_splits)
  have inst: "instanceof e p = instanceof e0 p" for p
    using frame [of p] inst1 by simp
  then obtain q ps ext where e: "e = Object q ps ext"
    using e0 instanceof_object by blast
  show ?thesis
  proof (cases "instanceof e HttpErrorProto")
    case True
    then show ?thesis using e by (simp add: isHttpError_def)
  next
    case False
    then have ms: "must_stamp ?H ?st e0"
      using not_must_stamp [of tbl ?st e0] inst by blast
    then have s: "stamp ?st e0 = Inr e1" using e1(1) by simp
    have g: "get e ''status'' = Number ?st" "get e ''statusCode'' = Number ?st"
      "get e ''expose'' =
         (if ''expose'' \<in> set (keys (props ?l)) then get (props ?l) ''expose''
          else Boolean (lt ?st 500))"
      using frame [of _ "''status''"] frame [of _ "''statusCode''"] frame [of _ "''expose''"]
        stamp_Inr [OF s, of _ "''status''"] stamp_Inr [OF s, of _ "''statusCode''"]
        stamp_Inr [OF s, of _ "''expose''"]
      by simp_all
    have "isHttpError e =
        (typeof (get e ''expose'') = ''boolean'' \<and>
         typeof (get e ''statusCode'') = ''number'' \<and>
         strict_equals (get e ''status'') (get e ''statusCode''))"
      using False inst e0 e by (simp add: isHttpError_def)
    then show ?thesis
      using False assms(2) unfolding g by (auto simp: strict_equals_def)
  qed
qed

theorem createError_isHttpError_witness:
  "createError_of example_statuses
     [example_adopted, Object ObjectProto [(''expose'', True, Boolean True)] True] =
     (Inr (Object ErrorProto
        [(''message'', True, String ''boom''), (''status'', True, Number (Fin 404)),
         (''expose'', True, Boolean True), (''statusCode'', True, Number (Fin 404))] True), []) \<and>
   isHttpError (Object ErrorProto
        [(''message'', True, String ''boom''), (''status'', True, Number (Fin 404)),
         (''expose'', True, Boolean True), (''statusCode'', True, Number (Fin 404))] True)"
proof -
  let ?args = "[example_adopted, Object ObjectProto [(''expose'', True, Boolean True)] True]"
  have h: "createError_of example_statuses ?args =
     (Inr (Object ErrorProto
        [(''message'', True, String ''boom''), (''status'', True, Number (Fin 404)),
         (''expose'', True, Boolean True), (''statusCode'', True, Number (Fin 404))] True), [])"
    "resolve example_statuses (status (scan 0 ?args initial_locals)) \<noteq> NaN"
    "''__proto__'' \<notin> set (keys (props (scan 0 ?args initial_locals)))"
    "''expose'' \<in> set (keys (props (scan 0 ?args initial_locals)))"
    "typeof (get (props (scan 0 ?args initial_locals)) ''expose'') = ''boolean''"
    by code_simp+
  show ?thesis
    using createError_isHttpError [OF h(1,2,3)] h(1,4,5) by simp
qed

text \<open>
  C10 as stated fails at \<^verbatim>\<open>createError(new Error('boom'), { expose: 'yes' })\<close>, where the
  error returned is no instance of a variant and its \<^verbatim>\<open>expose\<close> is a string, and at
  \<^verbatim>\<open>createError(404, JSON.parse('{"__proto__": {"a": 1}}'))\<close>, where the copy of the bag
  replaces the prototype and the value returned is no \<^verbatim>\<open>Error\<close> any more.
\<close>

theorem createError_not_isHttpError:
  "createError_of example_statuses
     [Object ErrorProto [(''message'', True, String ''boom'')] True,
      Object ObjectProto [(''expose'', True, String ''yes'')] True] =
     (Inr (Object ErrorProto
            [(''message'', True, String ''boom''), (''expose'', True, String ''yes''),
             (''statusCode'', True, Number (Fin 500)), (''status'', True, Number (Fin 500))]
            True),
      []) \<and>
   \<not> isHttpError (Object ErrorProto
            [(''message'', True, String ''boom''), (''expose'', True, String ''yes''),
             (''statusCode'', True, Number (Fin 500)), (''status'', True, Number (Fin 500))]
            True) \<and>
   createError_of example_statuses
     [Number (Fin 404),
      Object ObjectProto
        [(''__proto__'', True, Object ObjectProto [(''a'', True, Number (Fin 1))] True)] True] =
     (Inr (Object (ObjProto ObjectProto [(''a'', True, Number (Fin 1))])
            [(''message'', True, String ''Not Found''),
             (''name'', True, String ''NotFoundError'')]
            True),
      []) \<and>
   \<not> isHttpError (Object (ObjProto ObjectProto [(''a'', True, Number (Fin 1))])
            [(''message'', True, String ''Not Found''),
             (''name'', True, String ''NotFoundError'')]
            True)"
  by code_simp

section \<open>Copying the properties bag\<close>

lemma scan_arg_empty_bag:
  assumes "err l' = err l" "msg l' = msg l" "status l' = status l"
    "deprecated l' = deprecated l" "keys (props l') = []"
  shows "err (scan_arg i (empty_bag a) l') = err (scan_arg i a l) \<and>
         msg (scan_arg i (empty_bag a) l') = msg (scan_arg i a l) \<and>
         status (scan_arg i (empty_bag a) l') = status (scan_arg i a l) \<and>
         deprecated (scan_arg i (empty_bag a) l') = deprecated (scan_arg i a l) \<and>
         keys (props (scan_arg i (empty_bag a) l')) = []"
  using assms by (cases a) (auto simp: scan_arg_def empty_bag_def)

lemma scan_empty_bag:
  assumes "err l' = err l" "msg l' = msg l" "status l' = status l"
    "deprecated l' = deprecated l" "keys (props l') = []"
  shows "err (scan i (map empty_bag args) l') = err (scan i args l) \<and>
         msg (scan i (map empty_bag args) l') = msg (scan i args l) \<and>
         status (scan i (map empty_bag args) l') = status (scan i args l) \<and>
         deprecated (scan i (map empty_bag args) l') = deprecated (scan i args l) \<and>
         keys (props (scan i (map empty_bag args) l')) = []"
  using assms
proof (induction args arbitrary: i l l')
  case Nil
  then show ?case by simp
next
  case (Cons a args)
  have "err (scan_arg i (empty_bag a) l') = err (scan_arg i a l) \<and>
         msg (scan_arg i (empty_bag a) l') = msg (scan_arg i a l) \<and>
         status (scan_arg i (empty_bag a) l') = status (scan_arg i a l) \<and>
         deprecated (scan_arg i (empty_bag a) l') = deprecated (scan_arg i a l) \<and>
         keys (props (scan_arg i (empty_bag a) l')) = []"
    using Cons.prems by (rule scan_arg_empty_bag)
  then show ?case
    using Cons.IH [of "scan_arg i (empty_bag a) l'" "scan_arg i a l" "Suc i"] by simp
qed

lemma create_cong:
  "err l' = err l \<Longrightarrow> msg l' = msg l \<Longrightarrow> create tbl H st l' = create tbl H st l"
  by (simp add: create_def split: option.splits)

text \<open>
  C6, as amended. Let \<open>e\<close> be the error \<^verbatim>\<open>createError\<close> returns and the bag the last
  properties bag among the arguments (the earlier ones are dropped). Every key of the bag
  but \<^verbatim>\<open>status\<close>, \<^verbatim>\<open>statusCode\<close> and \<^verbatim>\<open>__proto__\<close> is copied onto \<open>e\<close>. When the bag has no key
  \<^verbatim>\<open>__proto__\<close>, let \<open>e1\<close> be the error \<^verbatim>\<open>createError\<close> returns with every properties bag
  among the arguments emptied, that is, the error before the copy: at every key that is
  not copied, \<^verbatim>\<open>status\<close> and \<^verbatim>\<open>statusCode\<close> included, \<open>e\<close> reads as \<open>e1\<close> does, so these two
  keys of the bag change nothing (\<^verbatim>\<open>expose\<close> is that of \<open>e1\<close> or the bag's own \<^verbatim>\<open>expose\<close>);
  the prototype chain and the signals are the same.
\<close>

theorem createError_copies_bag:
  assumes "createError_of tbl args = (Inr e, d)"
  shows "(\<forall>k\<in>set (keys (props (scan 0 args initial_locals))).
            k \<noteq> ''status'' \<and> k \<noteq> ''statusCode'' \<and> k \<noteq> ''__proto__'' \<longrightarrow>
            get e k = get (props (scan 0 args initial_locals)) k) \<and>
         (''__proto__'' \<notin> set (keys (props (scan 0 args initial_locals))) \<longrightarrow>
            (\<exists>e1. createError_of tbl (map empty_bag args) = (Inr e1, d) \<and>
               (\<forall>k. get e k =
                  (if k \<in> set (keys (props (scan 0 args initial_locals))) \<and>
                      k \<noteq> ''status'' \<and> k \<noteq> ''statusCode''
                   then get (props (scan 0 args initial_locals)) k
                   else get e1 k)) \<and>
               (\<forall>p. instanceof e p = instanceof e1 p)))"
proof -
  let ?l = "scan 0 args initial_locals"
  let ?l' = "scan 0 (map empty_bag args) initial_locals"
  let ?st = "resolve tbl (status ?l)"
  let ?H = "select_constructor (exports_of tbl) ?st"
  let ?d = "deprecated ?l @
                    (if non_error_status (status ?l)
                     then [''non-error status code; use only 4xx or 5xx status codes'']
                     else [])"
  have same: "err ?l' = err ?l" "msg ?l' = msg ?l" "status ?l' = status ?l"
    "deprecated ?l' = deprecated ?l" "keys (props ?l') = []"
    using scan_empty_bag [of initial_locals initial_locals 0 args]
    by (simp_all add: initial_locals_def)
  obtain e0 where e0: "create tbl ?H ?st ?l = Inr e0"
    and r: "createError_of tbl args =
             (and_then (if must_stamp ?H ?st e0 then stamp ?st e0 else Inr e0)
                (copy_props (props ?l)), ?d)"
    using createError_shape [of tbl args] by blast
  obtain e0' where e0': "create tbl ?H ?st ?l' = Inr e0'"
    and r': "createError_of tbl (map empty_bag args) =
             (and_then (if must_stamp ?H ?st e0' then stamp ?st e0' else Inr e0')
                (copy_props (props ?l')), ?d)"
    using createError_shape [of tbl "map empty_bag args"] unfolding same by blast
  have "e0' = e0"
    using e0 e0' create_cong [OF same(1) same(2)] by simp
  have d: "d = ?d" using r assms by simp
  have "and_then (if must_stamp ?H ?st e0 then stamp ?st e0 else Inr e0)
                (copy_props (props ?l)) = Inr e"
    using r assms by simp
  then obtain e1 where e1: "(if must_stamp ?H ?st e0 then stamp ?st e0 else Inr e0) = Inr e1"
    "copy_props (props ?l) e1 = Inr e"
    unfolding and_then_Inr by blast
  have "and_then (Inr e1) (copy_props (props ?l')) = Inr e1"
    using same(5) by (simp add: copy_props_no_keys)
  then have r1: "createError_of tbl (map empty_bag args) = (Inr e1, d)"
    using r' unfolding \<open>e0' = e0\<close> e1(1) d by simp
  have copied: "\<forall>k\<in>set (keys (props ?l)).
            k \<noteq> ''status'' \<and> k \<noteq> ''statusCode'' \<and> k \<noteq> ''__proto__'' \<longrightarrow>
            get e k = get (props ?l) k"
    using copy_props_own_set [OF e1(2)] by (auto intro: get_own)
  have "\<forall>k. get e k =
                  (if k \<in> set (keys (props ?l)) \<and> k \<noteq> ''status'' \<and> k \<noteq> ''statusCode''
                   then get (props ?l) k else get e1 k)"
    "\<forall>p. instanceof e p = instanceof e1 p"
    if "''__proto__'' \<notin> set (keys (props ?l))"
    using copy_props_frame [OF e1(2) that] by blast+
  then show ?thesis using copied r1 by blast
qed

theorem createError_copies_bag_witness:
  "\<exists>e d. createError_of example_statuses
       [Number (Fin 404),
        Object ObjectProto
          [(''code'', True, String ''ENOENT''), (''status'', True, Number (Fin 1))] True]
       = (Inr e, d) \<and>
     get e ''code'' = String ''ENOENT'' \<and> get e ''status'' = Number (Fin 404) \<and>
     get e ''statusCode'' = Number (Fin 404) \<and> get e ''expose'' = Boolean True"
proof -
  let ?bag = "Object ObjectProto
          [(''code'', True, String ''ENOENT''), (''status'', True, Number (Fin 1))] True"
  let ?args = "[Number (Fin 404), ?bag]"
  let ?e = "Object (VariantProto (ClientError ''NotFoundError'' 404))
        [(''message'', True, String ''Not Found''), (''name'', True, String ''NotFoundError''),
         (''code'', True, String ''ENOENT'')] True"
  let ?e1 = "Object (VariantProto (ClientError ''NotFoundError'' 404))
        [(''message'', True, String ''Not Found''), (''name'', True, String ''NotFoundError'')]
        True"
  let ?b = "props (scan 0 ?args initial_locals)"
  have r: "createError_of example_statuses ?args = (Inr ?e, [])"
    by code_simp
  have np: "''__proto__'' \<notin> set (keys ?b)" "''code'' \<in> set (keys ?b)"
    "''expose'' \<notin> set (keys ?b)" "get ?b ''code'' = String ''ENOENT''"
    by code_simp+
  have e1: "createError_of example_statuses (map empty_bag ?args) = (Inr ?e1, [])"
    by code_simp
  have g: "get ?e1 ''status'' = Number (Fin 404)"
    "get ?e1 ''statusCode'' = Number (Fin 404)" "get ?e1 ''expose'' = Boolean True"
    by code_simp+
  obtain e1' where e1': "createError_of example_statuses (map empty_bag ?args) = (Inr e1', [])"
    and fr: "\<And>k. get ?e k =
          (if k \<in> set (keys ?b) \<and> k \<noteq> ''status'' \<and> k \<noteq> ''statusCode''
           then get ?b k else get e1' k)"
    using createError_copies_bag [OF r] np(1) by blast
  have "e1' = ?e1" using e1 e1' by simp
  then have "get ?e ''code'' = String ''ENOENT''" "get ?e ''status'' = Number (Fin 404)"
     "get ?e ''statusCode'' = Number (Fin 404)" "get ?e ''expose'' = Boolean True"
    using fr [of "''code''"] fr [of "''status''"] fr [of "''statusCode''"] fr [of "''expose''"]
      np g by simp_all
  then show ?thesis using r by blast
qed

text \<open>
  C6 as stated fails at \<^verbatim>\<open>createError(404, { a: 1 }, { b: 2 })\<close>, where the key of the
  first bag is not copied, and at
  \<^verbatim>\<open>createError(404, JSON.parse('{"__proto__": {"a": 1}}'))\<close>, where the key
  \<^verbatim>\<open>__proto__\<close> is not copied but replaces the prototype, so that \<^verbatim>\<open>status\<close> is lost.
\<close>

theorem createError_bag_not_copied:
  "createError_of example_statuses
     [Number (Fin 404), Object ObjectProto [(''a'', True, Number (Fin 1))] True,
      Object ObjectProto [(''b'', True, Number (Fin 2))] True] =
     (Inr (Object (VariantProto (ClientError ''NotFoundError'' 404))
            [(''message'', True, String ''Not Found''),
             (''name'', True, String ''NotFoundError''), (''b'', True, Number (Fin 2))]
            True),
      []) \<and>
   get (Object (VariantProto (ClientError ''NotFoundError'' 404))
            [(''message'', True, String ''Not Found''),
             (''name'', True, String ''NotFoundError''), (''b'', True, Number (Fin 2))]
            True) ''a'' = Undefined \<and>
   createError_of example_statuses
     [Number (Fin 404),
      Object ObjectProto
        [(''__proto__'', True, Object ObjectProto [(''a'', True, Number (Fin 1))] True)] True] =
     (Inr (Object (ObjProto ObjectProto [(''a'', True, Number (Fin 1))])
            [(''message'', True, String ''Not Found''),
             (''name'', True, String ''NotFoundError'')]
            True),
      []) \<and>
   get (Object (ObjProto ObjectProto [(''a'', True, Number (Fin 1))])
            [(''message'', True, String ''Not Found''),
             (''name'', True, String ''NotFoundError'')]
            True) ''status'' = Undefined"
  by code_simp

section \<open>The last argument of a kind wins\<close>

lemma scan_append: "scan i (xs @ ys) l = scan (i + length xs) ys (scan i xs l)"
  by (induction xs arbitrary: i l) simp_all

lemma msg_scan_keep:
  "\<forall>a\<in>set args. typeof a \<noteq> ''string'' \<Longrightarrow> msg (scan i args l) = msg l"
proof (induction args arbitrary: i l)
  case Nil
  then show ?case by simp
next
  case (Cons a args)
  then have "msg (scan_arg i a l) = msg l"
    by (cases a) (simp_all add: scan_arg_def)
  then show ?case using Cons by simp
qed

lemma props_scan_keep:
  "\<forall>a\<in>set args. typeof a = ''object'' \<longrightarrow> instanceof a ErrorProto \<Longrightarrow>
   props (scan i args l) = props l"
proof (induction args arbitrary: i l)
  case Nil
  then show ?case by simp
next
  case (Cons a args)
  then have "props (scan_arg i a l) = props l"
    by (cases a) (simp_all add: scan_arg_def)
  then show ?case using Cons by simp
qed

lemma status_scan_keep:
  "\<forall>a\<in>set args. typeof a \<noteq> ''number'' \<and>
      (instanceof a ErrorProto \<longrightarrow> \<not> truthy (get a ''status'') \<and> \<not> truthy (get a ''statusCode'')) \<Longrightarrow>
   status (scan i args l) = status l"
proof (induction args arbitrary: i l)
  case Nil
  then show ?case by simp
next
  case (Cons a args)
  then have "status (scan_arg i a l) = status l"
    by (cases a) (simp_all add: scan_arg_def or_js_def)
  then show ?case using Cons by simp
qed

lemma deprecated_scan_eq:
  "deprecated (scan i args l) =
     deprecated l @
     concat (map (\<lambda>(j, a). non_first_signal j a) (zip [i..<i + length args] args))"
proof (induction args arbitrary: i l)
  case Nil
  then show ?case by simp
next
  case (Cons a args)
  have z: "zip [i..<i + length (a # args)] (a # args) =
      (i, a) # zip [Suc i..<Suc i + length args] args"
    by (simp del: upt_Suc add: upt_conv_Cons)
  have "deprecated (scan_arg i a l) = deprecated l @ non_first_signal i a"
    by (cases a) (simp_all add: scan_arg_def non_first_signal_def)
  then show ?case
    unfolding z using Cons.IH [of "Suc i" "scan_arg i a l"] by simp
qed

text \<open>
  C7, as amended. Of several arguments of one kind the last wins: the last string is the
  message; the last number is \<^verbatim>\<open>status\<close> after the loop, unless an \<^verbatim>\<open>Error\<close> with a truthy
  \<^verbatim>\<open>status\<close> or \<^verbatim>\<open>statusCode\<close> follows it; the last properties bag (an object or \<^verbatim>\<open>null\<close>
  that is no \<^verbatim>\<open>Error\<close>) is the only bag kept, with nothing of the earlier ones; and
  \<^verbatim>\<open>deprecate\<close> is called once for every number that is not the first argument, in order.
\<close>

theorem last_argument_wins:
  "(args = pre1 @ String s # post1 \<and> (\<forall>a\<in>set post1. typeof a \<noteq> ''string'') \<longrightarrow>
      msg (scan 0 args initial_locals) = String s) \<and>
   (args = pre2 @ Number n # post2 \<and>
      (\<forall>a\<in>set post2. typeof a \<noteq> ''number'' \<and>
         (instanceof a ErrorProto \<longrightarrow>
            \<not> truthy (get a ''status'') \<and> \<not> truthy (get a ''statusCode''))) \<longrightarrow>
      status (scan 0 args initial_locals) = Number n) \<and>
   (args = pre3 @ b # post3 \<and> typeof b = ''object'' \<and> \<not> instanceof b ErrorProto \<and>
      (\<forall>a\<in>set post3. typeof a = ''object'' \<longrightarrow> instanceof a ErrorProto) \<longrightarrow>
      props (scan 0 args initial_locals) = b) \<and>
   deprecated (scan 0 args initial_locals) =
     concat (map (\<lambda>(j, a). non_first_signal j a) (zip [0..<length args] args))"
proof (intro conjI impI)
  assume a: "args = pre1 @ String s # post1 \<and> (\<forall>a\<in>set post1. typeof a \<noteq> ''string'')"
  then have "msg (scan 0 args initial_locals) =
      msg (scan_arg (length pre1) (String s) (scan 0 pre1 initial_locals))"
    by (simp add: scan_append msg_scan_keep)
  then show "msg (scan 0 args initial_locals) = String s"
    by (simp add: scan_arg_def)
next
  assume a: "args = pre2 @ Number n # post2 \<and>
      (\<forall>a\<in>set post2. typeof a \<noteq> ''number'' \<and>
         (instanceof a ErrorProto \<longrightarrow>
            \<not> truthy (get a ''status'') \<and> \<not> truthy (get a ''statusCode'')))"
  then have "status (scan 0 args initial_locals) =
      status (scan_arg (length pre2) (Number n) (scan 0 pre2 initial_locals))"
    by (simp add: scan_append status_scan_keep)
  then show "status (scan 0 args initial_locals) = Number n"
    by (simp add: scan_arg_def)
next
  assume a: "args = pre3 @ b # post3 \<and> typeof b = ''object'' \<and> \<not> instanceof b ErrorProto \<and>
      (\<forall>a\<in>set post3. typeof a = ''object'' \<longrightarrow> instanceof a ErrorProto)"
  then have "props (scan 0 args initial_locals) =
      props (scan_arg (length pre3) b (scan 0 pre3 initial_locals))"
    by (simp add: scan_append props_scan_keep)
  moreover have "props (scan_arg i b l) = b" for i l
    using a by (cases b) (simp_all add: scan_arg_def)
  ultimately show "props (scan 0 args initial_locals) = b" by simp
next
  show "deprecated (scan 0 args initial_locals) =
     concat (map (\<lambda>(j, a). non_first_signal j a) (zip [0..<length args] args))"
    by (subst deprecated_scan_eq) (simp add: initial_locals_def)
qed

theorem last_argument_wins_witness:
  "msg (scan 0 [String ''a'', Number (Fin 400), Object ObjectProto [(''x'', True, Null)] True,
                String ''b'', Number (Fin 404), Object ObjectProto [(''y'', True, Null)] True]
          initial_locals) = String ''b'' \<and>
   status (scan 0 [String ''a'', Number (Fin 400), Object ObjectProto [(''x'', True, Null)] True,
                String ''b'', Number (Fin 404), Object ObjectProto [(''y'', True, Null)] True]
          initial_locals) = Number (Fin 404) \<and>
   props (scan 0 [String ''a'', Number (Fin 400), Object ObjectProto [(''x'', True, Null)] True,
                String ''b'', Number (Fin 404), Object ObjectProto [(''y'', True, Null)] True]
          initial_locals) = Object ObjectProto [(''y'', True, Null)] True \<and>
   deprecated (scan 0 [String ''a'', Number (Fin 400), Object ObjectProto [(''x'', True, Null)] True,
                String ''b'', Number (Fin 404), Object ObjectProto [(''y'', True, Null)] True]
          initial_locals) =
     [''non-first-argument status code; replace with createError(400, ...)'',
      ''non-first-argument status code; replace with createError(404, ...)'']"
proof -
  let ?args = "[String ''a'', Number (Fin 400), Object ObjectProto [(''x'', True, Null)] True,
                String ''b'', Number (Fin 404), Object ObjectProto [(''y'', True, Null)] True]"
  have sig: "concat (map (\<lambda>(j, a). non_first_signal j a) (zip [0..<length ?args] ?args)) =
     [''non-first-argument status code; replace with createError(400, ...)'',
      ''non-first-argument status code; replace with createError(404, ...)'']"
    by code_simp
  show ?thesis
    using last_argument_wins [of ?args
        "[String ''a'', Number (Fin 400), Object ObjectProto [(''x'', True, Null)] True]" "''b''"
        "[Number (Fin 404), Object ObjectProto [(''y'', True, Null)] True]"
        "[String ''a'', Number (Fin 400), Object ObjectProto [(''x'', True, Null)] True, String ''b'']"
        "Fin 404" "[Object ObjectProto [(''y'', True, Null)] True]"
        "[String ''a'', Number (Fin 400), Object ObjectProto [(''x'', True, Null)] True,
          String ''b'', Number (Fin 404)]"
        "Object ObjectProto [(''y'', True, Null)] True" "[]"]
    unfolding sig by simp
qed

text \<open>
  C7 as stated fails at \<^verbatim>\<open>createError(400, 404, err)\<close> for an \<^verbatim>\<open>Error\<close> \<^verbatim>\<open>err\<close> with
  \<^verbatim>\<open>err.status = 500\<close>: the last number is 404, the resolved status is 500.
\<close>

theorem last_number_overridden:
  "status (scan 0 [Number (Fin 400), Number (Fin 404),
                   Object ErrorProto [(''status'', True, Number (Fin 500))] True] initial_locals) =
     Number (Fin 500) \<and>
   createError_of example_statuses
     [Number (Fin 400), Number (Fin 404), Object ErrorProto [(''status'', True, Number (Fin 500))] True] =
     (Inr (Object ErrorProto
             [(''status'', True, Number (Fin 500)), (''expose'', True, Boolean False),
              (''statusCode'', True, Number (Fin 500))] True),
      [''non-first-argument status code; replace with createError(404, ...)''])"
  by code_simp

section \<open>The registry\<close>

lemma digits_value_snoc:
  "digits_value (xs @ [c]) = 10 * digits_value xs + (of_char c - 48)"
  by (simp add: digits_value_def)

lemma digits_value_String_nat: "digits_value (String_nat n) = n"
proof (induction n rule: String_nat.induct)
  case (1 n)
  show ?case
  proof (cases "n < 10")
    case True
    then show ?thesis
      by (subst String_nat.simps) (simp add: digits_value_def of_char_digit)
  next
    case False
    then have "digits_value (String_nat (n div 10)) = n div 10"
      using 1 by simp
    then show ?thesis
      using False
      by (subst String_nat.simps) (simp add: digits_value_snoc of_char_digit)
  qed
qed

lemma String_nat_inject: "String_nat m = String_nat n \<Longrightarrow> m = n"
  by (metis digits_value_String_nat)

lemma forEachCode_registers:
  assumes "map_of tbl c = Some phrase" and "400 \<le> c" and "c < 600"
    and "forEachCode tbl ex c = Inr ex'"
  shows "ex' (String_nat c) = Some (variant_of c phrase) \<and>
         ex' (toIdentifier phrase) = Some (variant_of c phrase)"
proof -
  have "codeClass (Fin (int c)) = Fin (if c < 500 then 400 else 500)"
    using assms(2,3) codeClass_4xx [of "int c"] codeClass_5xx [of "int c"] by auto
  then show ?thesis
    using assms
    by (auto simp: forEachCode_def Let_def variant_of_def createClientErrorConstructor_def
        createServerErrorConstructor_def)
qed

lemma forEachCode_keeps:
  assumes "forEachCode tbl ex c' = Inr ex'" and "c' \<noteq> c"
    and "\<forall>(c', phrase') \<in> set tbl. c' \<noteq> c \<longrightarrow>
           toIdentifier phrase' \<noteq> name \<and> toIdentifier phrase' \<noteq> String_nat c \<and>
           String_nat c' \<noteq> name"
  shows "ex' (String_nat c) = ex (String_nat c) \<and> ex' name = ex name"
proof -
  obtain p' where p': "map_of tbl c' = Some p'"
    using assms(1) by (auto simp: forEachCode_def split: option.splits)
  then have "(c', p') \<in> set tbl" by (rule map_of_SomeD)
  then have "toIdentifier p' \<noteq> name" "toIdentifier p' \<noteq> String_nat c" "String_nat c' \<noteq> name"
    using assms(2,3) by auto
  moreover have "String_nat c' \<noteq> String_nat c"
    using assms(2) String_nat_inject by blast
  ultimately show ?thesis
    using assms(1) p'
    by (auto simp: forEachCode_def Let_def split: if_splits)
qed

lemma populate_registers:
  assumes "map_of tbl c = Some phrase" and "400 \<le> c" and "c < 600"
    and "\<forall>(c', phrase') \<in> set tbl. c' \<noteq> c \<longrightarrow>
           toIdentifier phrase' \<noteq> toIdentifier phrase \<and> toIdentifier phrase' \<noteq> String_nat c \<and>
           String_nat c' \<noteq> toIdentifier phrase"
    and "populateConstructorExports tbl cs ex = Inr ex'"
    and "c \<in> set cs \<or>
         (ex (String_nat c) = Some (variant_of c phrase) \<and>
          ex (toIdentifier phrase) = Some (variant_of c phrase))"
  shows "ex' (String_nat c) = Some (variant_of c phrase) \<and>
         ex' (toIdentifier phrase) = Some (variant_of c phrase)"
  using assms(5,6)
proof (induction cs arbitrary: ex)
  case Nil
  then show ?case by simp
next
  case (Cons a cs)
  then obtain ex1 where ex1: "forEachCode tbl ex a = Inr ex1"
    "populateConstructorExports tbl cs ex1 = Inr ex'"
    by (auto split: sum.splits)
  have "ex1 (String_nat c) = Some (variant_of c phrase) \<and>
         ex1 (toIdentifier phrase) = Some (variant_of c phrase)"
    if "a = c \<or> (ex (String_nat c) = Some (variant_of c phrase) \<and>
          ex (toIdentifier phrase) = Some (variant_of c phrase))"
  proof (cases "a = c")
    case True
    then show ?thesis
      using forEachCode_registers [OF assms(1-3)] ex1(1) by blast
  next
    case False
    then show ?thesis
      using forEachCode_keeps [OF ex1(1) False assms(4)] that by simp
  qed
  then show ?case
    using Cons.IH [OF ex1(2)] Cons.prems(2) by auto
qed

text \<open>
  C8. Let \<open>c\<close> be a known status code in [400,600) with reason phrase \<open>phrase\<close>, in a Status
  Table where no other code derives the same identifier and no identifier is the string
  of another code (as in the table of the \<^verbatim>\<open>statuses\<close> package, whose phrases are distinct
  words). The loaded module holds one and the same variant constructor at the key \<open>c\<close>
  and at the identifier derived from \<open>phrase\<close>, and calling it with no message gives an
  error whose \<^verbatim>\<open>message\<close> is \<open>phrase\<close>, whose \<^verbatim>\<open>status\<close> and \<^verbatim>\<open>statusCode\<close> are \<open>c\<close> and whose
  \<^verbatim>\<open>expose\<close> is \<open>c < 500\<close>.
\<close>

theorem registry_both_keys:
  assumes "map_of tbl c = Some phrase" and "400 \<le> c" and "c < 600"
    and "\<forall>(c', phrase') \<in> set tbl. c' \<noteq> c \<longrightarrow>
           toIdentifier phrase' \<noteq> toIdentifier phrase \<and> toIdentifier phrase' \<noteq> String_nat c \<and>
           String_nat c' \<noteq> toIdentifier phrase"
  shows "\<exists>C e. exports_of tbl (String_num (Fin (int c))) = Some (VariantExport C) \<and>
           exports_of tbl (toIdentifier phrase) = Some (VariantExport C) \<and>
           construct tbl (VariantExport C) Undefined = Inr e \<and>
           get e ''message'' = String phrase \<and>
           get e ''status'' = Number (Fin (int c)) \<and>
           get e ''statusCode'' = Number (Fin (int c)) \<and>
           get e ''expose'' = Boolean (c < 500)"
proof -
  have "c \<in> set (codes tbl)"
    using assms(1) by (auto simp: codes_def dest: map_of_SomeD intro: rev_image_eqI)
  then have reg: "exports_of tbl (String_nat c) = Some (variant_of c phrase) \<and>
         exports_of tbl (toIdentifier phrase) = Some (variant_of c phrase)"
    using populate_registers [OF assms, of "codes tbl" initial_exports "exports_of tbl"]
      module_exports_of [of tbl]
    by (simp add: module_exports_def)
  let ?C = "if c < 500 then ClientError (toClassName (toIdentifier phrase)) c
        else ServerError (toClassName (toIdentifier phrase)) c"
  let ?e = "Object (VariantProto ?C)
      [(''message'', True, String phrase), (''name'', True, String (ctor_className ?C))] True"
  have "get ?e ''message'' = String phrase" "get ?e ''status'' = Number (Fin (int c))"
    "get ?e ''statusCode'' = Number (Fin (int c))" "get ?e ''expose'' = Boolean (c < 500)"
    by (simp_all add: get_def)
  moreover have "construct_variant tbl ?C Undefined = Inr ?e"
    using assms(1) construct_variant_ok [of "String phrase" Undefined tbl ?C]
    by (simp add: message_val_def)
  ultimately show ?thesis
    using reg unfolding variant_of_def by (intro exI [of _ ?C] exI [of _ ?e]) simp
qed

theorem registry_both_keys_witness:
  "\<exists>C e. exports_of example_statuses ''404'' = Some (VariantExport C) \<and>
           exports_of example_statuses ''NotFound'' = Some (VariantExport C) \<and>
           construct example_statuses (VariantExport C) Undefined = Inr e \<and>
           get e ''message'' = String ''Not Found'' \<and>
           get e ''status'' = Number (Fin 404) \<and>
           get e ''statusCode'' = Number (Fin 404) \<and>
           get e ''expose'' = Boolean True"
proof -
  have h: "map_of example_statuses 404 = Some ''Not Found''"
    "\<forall>(c', phrase') \<in> set example_statuses. c' \<noteq> 404 \<longrightarrow>
           toIdentifier phrase' \<noteq> toIdentifier ''Not Found'' \<and>
           toIdentifier phrase' \<noteq> String_nat 404 \<and>
           String_nat c' \<noteq> toIdentifier ''Not Found''"
    "String_num (Fin (int 404)) = ''404''" "toIdentifier ''Not Found'' = ''NotFound''"
    by code_simp+
  show ?thesis
    using registry_both_keys [OF h(1) _ _ h(2)] unfolding h(3,4) by simp
qed

end
